theory Spec2Isabelle
  imports Complex_Main
begin

section \<open>The artifact collection pipeline of app.py\<close>

text \<open>
  The program fetches the records of one classification from a paginated web API
  (\<open>fetch_data\<close>), turns them into three frames of rows (metadata, media, colors), and
  writes the frames into three SQLite tables with INSERT OR REPLACE (\<open>insert_frames\<close>).
  Two button handlers of the user interface call the two functions and keep a set of the
  classifications already inserted in this session.

  Level of the model.
  \<^item> A JSON record of the API is a record of optional fields, typed as the API documents
    them: a missing key and a JSON null both read as \<open>None\<close>, which is what
    \<open>obj.get(k)\<close> returns for them. Python integers are \<open>int\<close>, floats are carried as
    \<open>rat\<close> (they are only stored and copied, never computed with), strings are \<open>string\<close>.
  \<^item> A pandas frame is the list of its rows, in order. The coercions pandas applies to
    the cells of a column (an integer column with a missing cell becomes a float column)
    are not followed: a cell keeps its value. On these typed cells \<open>pd.isna(v)\<close> is
    \<open>v = None\<close>, \<open>None if pd.isna(v) else v\<close> is \<open>v\<close>, and \<open>int(v)\<close> is \<open>v\<close>.
  \<^item> A table is the list of its rows in the order they were written. An exception is a
    value of type \<open>error\<close> in the left summand.
\<close>

subsection \<open>Errors\<close>

datatype error =
    TransportError    \<comment> \<open>requests: timeout, connection failure, non-2xx status, body not JSON\<close>
  | KeyError          \<comment> \<open>pandas: \<open>dropna(subset=["hue"])\<close> on a frame without that column\<close>
  | OverflowError     \<comment> \<open>sqlite3: a Python int outside the 64-bit range cannot be bound\<close>
  | StoreFull         \<comment> \<open>SQLite: no fresh rowid above the largest one\<close>

subsection \<open>Records of the API\<close>

record color_entry =
  entry_hue :: "string option"
  entry_percent :: "rat option"

record raw_record =
  raw_id :: "int option"
  raw_title :: "string option"
  raw_culture :: "string option"
  raw_dated :: "string option"
  raw_period :: "string option"
  raw_division :: "string option"
  raw_medium :: "string option"
  raw_dimensions :: "string option"
  raw_weight :: "string option"
  raw_department :: "string option"
  raw_accessionyear :: "int option"
  raw_imagecount :: "int option"
  raw_mediacount :: "int option"
  raw_colorcount :: "int option"
  raw_rank :: "rat option"
  raw_datedbegin :: "int option"
  raw_datedend :: "int option"
  raw_colors :: "color_entry list"   \<comment> \<open>\<open>obj.get("colors") or []\<close>: absent, null and empty all read as \<open>[]\<close>\<close>

text \<open>
  The body of one page: \<open>payload.get("records", [])\<close> and the page count
  \<open>payload["info"]["pages"]\<close>. For \<open>payload_info\<close>, \<open>None\<close> is a payload without the
  key "info", \<open>Some None\<close> an info object without "pages".
\<close>

record payload =
  payload_records :: "raw_record list"
  payload_info :: "int option option"

datatype response = HttpFailed | HttpOk payload

text \<open>
  The remote API: the response to the request for a page of a classification. One call
  of \<open>fetch_data\<close> requests each page number at most once, so a function of the page
  number describes everything the call can observe.
\<close>

type_synonym api = "string \<Rightarrow> int \<Rightarrow> response"

subsection \<open>Rows of the three frames and tables\<close>

record meta_row =
  meta_id :: "int option"
  meta_title :: "string option"
  meta_culture :: "string option"
  meta_dated :: "string option"
  meta_period :: "string option"
  meta_division :: "string option"
  meta_medium :: "string option"
  meta_dimensions :: "string option"
  meta_weight :: "string option"
  meta_department :: "string option"
  meta_accessionyear :: "int option"
  meta_classification :: string

record media_row =
  media_object_id :: "int option"
  media_imagecount :: "int option"
  media_mediacount :: "int option"
  media_colorcount :: "int option"
  media_rank :: "rat option"
  media_datedbegin :: "int option"
  media_datedend :: "int option"

record color_row =
  color_object_id :: "int option"
  color_hue :: "string option"
  color_percentage :: "rat option"

subsection \<open>fetch\_data\<close>

definition DEFAULT_FETCH_LIMIT :: int where
  "DEFAULT_FETCH_LIMIT = 2500"

text \<open>The three dictionaries built from one record \<open>obj\<close> (lines 102 to 130).\<close>

definition meta_row_of :: "string \<Rightarrow> raw_record \<Rightarrow> meta_row" where
  "meta_row_of classification obj =
     \<lparr> meta_id = raw_id obj, meta_title = raw_title obj, meta_culture = raw_culture obj,
       meta_dated = raw_dated obj, meta_period = raw_period obj,
       meta_division = raw_division obj, meta_medium = raw_medium obj,
       meta_dimensions = raw_dimensions obj, meta_weight = raw_weight obj,
       meta_department = raw_department obj, meta_accessionyear = raw_accessionyear obj,
       meta_classification = classification \<rparr>"

definition media_row_of :: "raw_record \<Rightarrow> media_row" where
  "media_row_of obj =
     \<lparr> media_object_id = raw_id obj, media_imagecount = raw_imagecount obj,
       media_mediacount = raw_mediacount obj, media_colorcount = raw_colorcount obj,
       media_rank = raw_rank obj, media_datedbegin = raw_datedbegin obj,
       media_datedend = raw_datedend obj \<rparr>"

definition color_rows_of :: "raw_record \<Rightarrow> color_row list" where
  "color_rows_of obj =
     map (\<lambda>c. \<lparr> color_object_id = raw_id obj, color_hue = entry_hue c,
                color_percentage = entry_percent c \<rparr>) (raw_colors obj)"

text \<open>The local variables of the loop.\<close>

record fetch_state =
  raw_records :: "raw_record list"
  meta_rows :: "meta_row list"
  media_rows :: "media_row list"
  color_rows :: "color_row list"
  page :: int
  collected :: int

definition fetch_init :: fetch_state where
  "fetch_init = \<lparr> raw_records = [], meta_rows = [], media_rows = [], color_rows = [],
                  page = 1, collected = 0 \<rparr>"

text \<open>
  One run of the loop body (lines 93 to 134): it raises, leaves the loop with
  \<open>break\<close>, or reaches the end of the body.
\<close>

datatype body_result = Raise error | Break fetch_state | Continue fetch_state

definition fetch_body :: "api \<Rightarrow> string \<Rightarrow> fetch_state \<Rightarrow> body_result" where
  "fetch_body remote classification st =
     (case remote classification (page st) of
        HttpFailed \<Rightarrow> Raise TransportError
      | HttpOk pl \<Rightarrow>
          let records = payload_records pl in
          if records = [] then Break st
          else
            let st' = \<lparr> raw_records = raw_records st @ records,
                        meta_rows = meta_rows st @ map (meta_row_of classification) records,
                        media_rows = media_rows st @ map media_row_of records,
                        color_rows = color_rows st @ concat (map color_rows_of records),
                        page = page st + 1,
                        collected = collected st + int (length records) \<rparr>
            in (case payload_info pl of
                  None \<Rightarrow> Continue st'
                | Some pinfo \<Rightarrow>
                    if page st' > (case pinfo of None \<Rightarrow> page st' | Some n \<Rightarrow> n)
                    then Break st' else Continue st'))"

text \<open>
  The while loop. It is defined without a termination argument, so that a run that
  never leaves the loop is the value \<open>None\<close>; that this does not happen is a theorem.
\<close>

partial_function (option) fetch_loop ::
  "api \<Rightarrow> string \<Rightarrow> int \<Rightarrow> fetch_state \<Rightarrow> (error + fetch_state) option" where
  "fetch_loop remote classification limit st =
     (if collected st < limit then
        (case fetch_body remote classification st of
           Raise e \<Rightarrow> Some (Inl e)
         | Break st' \<Rightarrow> Some (Inr st')
         | Continue st' \<Rightarrow> fetch_loop remote classification limit st')
      else Some (Inr st))"

declare fetch_loop.simps [code]

text \<open>
  \<open>DataFrame.drop_duplicates(subset=[key], keep="first")\<close>: a row is dropped when
  an earlier row has the same key. \<open>seen\<close> holds the keys met so far.
\<close>

fun drop_duplicates_from :: "('r \<Rightarrow> 'k) \<Rightarrow> 'k list \<Rightarrow> 'r list \<Rightarrow> 'r list" where
  "drop_duplicates_from key seen [] = []"
| "drop_duplicates_from key seen (r # rs) =
     (if key r \<in> set seen then drop_duplicates_from key seen rs
      else r # drop_duplicates_from key (key r # seen) rs)"

definition drop_duplicates :: "('r \<Rightarrow> 'k) \<Rightarrow> 'r list \<Rightarrow> 'r list" where
  "drop_duplicates key rows = drop_duplicates_from key [] rows"

text \<open>
  \<open>DataFrame.dropna(subset=["hue"])\<close>. A frame built from an empty list of
  dictionaries has no columns, and pandas raises KeyError for the missing column;
  \<open>drop_duplicates\<close> returns such a frame as it is.
\<close>

definition dropna_hue :: "color_row list \<Rightarrow> error + color_row list" where
  "dropna_hue rows =
     (if rows = [] then Inl KeyError else Inr (filter (\<lambda>r. color_hue r \<noteq> None) rows))"

type_synonym frames = "meta_row list \<times> media_row list \<times> color_row list \<times> raw_record list"

text \<open>Lines 136 to 139.\<close>

definition fetch_finish :: "fetch_state \<Rightarrow> error + frames" where
  "fetch_finish st =
     (let meta_df = drop_duplicates meta_id (meta_rows st);
          media_df = drop_duplicates media_object_id (media_rows st)
      in case dropna_hue (color_rows st) of
           Inl e \<Rightarrow> Inl e
         | Inr colors_df \<Rightarrow> Inr (meta_df, media_df, colors_df, raw_records st))"

definition fetch_data :: "api \<Rightarrow> string \<Rightarrow> int \<Rightarrow> (error + frames) option" where
  "fetch_data remote classification limit =
     (case fetch_loop remote classification limit fetch_init of
        None \<Rightarrow> None
      | Some (Inl e) \<Rightarrow> Some (Inl e)
      | Some (Inr st) \<Rightarrow> Some (fetch_finish st))"

text \<open>
  The states the loop of one call passes through at the head of the loop: the initial
  one, and the one after each run of the body that reaches its end while the loop
  condition holds.
\<close>

inductive fetch_reaches :: "api \<Rightarrow> string \<Rightarrow> int \<Rightarrow> fetch_state \<Rightarrow> bool"
  for remote :: api and classification :: string and limit :: int where
  reach_init: "fetch_reaches remote classification limit fetch_init"
| reach_step: "fetch_reaches remote classification limit st \<Longrightarrow> collected st < limit \<Longrightarrow>
     fetch_body remote classification st = Continue st' \<Longrightarrow>
     fetch_reaches remote classification limit st'"

subsection \<open>The store\<close>

record store =
  artifact_metadata :: "meta_row list"
  artifact_media :: "media_row list"
  artifact_colors :: "color_row list"

text \<open>
  \<open>init_db\<close> creates the three tables unless they exist: a missing database file
  (\<open>None\<close>) becomes three empty tables, an existing one is left as it is.
\<close>

definition empty_store :: store where
  "empty_store = \<lparr> artifact_metadata = [], artifact_media = [], artifact_colors = [] \<rparr>"

definition init_db :: "store option \<Rightarrow> store" where
  "init_db file = (case file of None \<Rightarrow> empty_store | Some s \<Rightarrow> s)"

text \<open>sqlite3 binds a Python int only when it fits a signed 64-bit integer.\<close>

definition bind_ok :: "int option \<Rightarrow> bool" where
  "bind_ok v = (case v of None \<Rightarrow> True | Some i \<Rightarrow> - (2 ^ 63) \<le> i \<and> i < 2 ^ 63)"

text \<open>
  INSERT OR REPLACE on a key that is not null: the rows in conflict with the new row
  are deleted, then the new row is written.
\<close>

definition replace_row :: "('r \<Rightarrow> 'k) \<Rightarrow> 'r \<Rightarrow> 'r list \<Rightarrow> 'r list" where
  "replace_row key r t = filter (\<lambda>x. key x \<noteq> key r) t @ [r]"

text \<open>
  A NULL written into an INTEGER PRIMARY KEY column is replaced by one more than the
  largest rowid in the table, 1 in an empty table. When the largest rowid is the largest
  64-bit integer SQLite tries rowids at random; the model reports that case as
  \<open>StoreFull\<close>, the error of SQLite when the search fails.
\<close>

fun max_rowid :: "int option list \<Rightarrow> int option" where
  "max_rowid [] = None"
| "max_rowid (k # ks) =
     (case k of
        None \<Rightarrow> max_rowid ks
      | Some i \<Rightarrow> (case max_rowid ks of None \<Rightarrow> Some i | Some m \<Rightarrow> Some (max i m)))"

definition next_rowid :: "int option list \<Rightarrow> error + int" where
  "next_rowid ks =
     (case max_rowid ks of
        None \<Rightarrow> Inr 1
      | Some m \<Rightarrow> if m + 1 < 2 ^ 63 then Inr (m + 1) else Inl StoreFull)"

text \<open>One INSERT OR REPLACE INTO artifact\_metadata (\<open>id INTEGER PRIMARY KEY\<close>).\<close>

definition replace_metadata :: "meta_row \<Rightarrow> meta_row list \<Rightarrow> error + meta_row list" where
  "replace_metadata r t =
     (if \<not> (bind_ok (meta_id r) \<and> bind_ok (meta_accessionyear r)) then Inl OverflowError
      else case meta_id r of
             Some k \<Rightarrow> Inr (replace_row meta_id r t)
           | None \<Rightarrow>
               (case next_rowid (map meta_id t) of
                  Inl e \<Rightarrow> Inl e
                | Inr k \<Rightarrow> Inr (t @ [r\<lparr>meta_id := Some k\<rparr>])))"

text \<open>One INSERT OR REPLACE INTO artifact\_media (\<open>object_id INTEGER PRIMARY KEY\<close>).\<close>

definition replace_media :: "media_row \<Rightarrow> media_row list \<Rightarrow> error + media_row list" where
  "replace_media r t =
     (if \<not> (bind_ok (media_object_id r) \<and> bind_ok (media_imagecount r) \<and>
             bind_ok (media_mediacount r) \<and> bind_ok (media_colorcount r) \<and>
             bind_ok (media_datedbegin r) \<and> bind_ok (media_datedend r))
      then Inl OverflowError
      else case media_object_id r of
             Some k \<Rightarrow> Inr (replace_row media_object_id r t)
           | None \<Rightarrow>
               (case next_rowid (map media_object_id t) of
                  Inl e \<Rightarrow> Inl e
                | Inr k \<Rightarrow> Inr (t @ [r\<lparr>media_object_id := Some k\<rparr>])))"

text \<open>
  One INSERT OR REPLACE INTO artifact\_colors (\<open>PRIMARY KEY (object_id, hue)\<close>, no
  NOT NULL). SQLite lets NULL into the columns of such a key and takes every NULL as
  different from every other value, so a row with a NULL in its key conflicts with no
  row and is appended.
\<close>

definition color_key :: "color_row \<Rightarrow> int option \<times> string option" where
  "color_key r = (color_object_id r, color_hue r)"

definition replace_colors :: "color_row \<Rightarrow> color_row list \<Rightarrow> error + color_row list" where
  "replace_colors r t =
     (if \<not> bind_ok (color_object_id r) then Inl OverflowError
      else if color_object_id r = None \<or> color_hue r = None then Inr (t @ [r])
      else Inr (replace_row color_key r t))"

text \<open>\<open>cur.executemany(sql, records)\<close>: the statement for each row in turn, up to the first error.\<close>

fun executemany :: "('r \<Rightarrow> 't \<Rightarrow> error + 't) \<Rightarrow> 't \<Rightarrow> 'r list \<Rightarrow> error + 't" where
  "executemany stmt t [] = Inr t"
| "executemany stmt t (r # rs) =
     (case stmt r t of Inl e \<Rightarrow> Inl e | Inr t' \<Rightarrow> executemany stmt t' rs)"

text \<open>
  \<open>insert_frames\<close> (lines 144 to 184). The three \<open>executemany\<close> run in the transaction
  that sqlite3 opens before the first INSERT, and the only \<open>conn.commit()\<close> is the last
  statement but one. An exception leaves the function before it, and the writes made so
  far are dropped with the connection. The result is the exception, if any, and the
  contents of the database file after the call.
\<close>

definition insert_frames ::
  "store \<Rightarrow> meta_row list \<Rightarrow> media_row list \<Rightarrow> color_row list \<Rightarrow> error option \<times> store" where
  "insert_frames db meta_df media_df colors_df =
     (case (if meta_df \<noteq> [] then executemany replace_metadata (artifact_metadata db) meta_df
            else Inr (artifact_metadata db)) of
        Inl e \<Rightarrow> (Some e, db)
      | Inr t1 \<Rightarrow>
     (case (if media_df \<noteq> [] then executemany replace_media (artifact_media db) media_df
            else Inr (artifact_media db)) of
        Inl e \<Rightarrow> (Some e, db)
      | Inr t2 \<Rightarrow>
     (case (if colors_df \<noteq> [] then executemany replace_colors (artifact_colors db) colors_df
            else Inr (artifact_colors db)) of
        Inl e \<Rightarrow> (Some e, db)
      | Inr t3 \<Rightarrow>
          (None, \<lparr> artifact_metadata = t1, artifact_media = t2, artifact_colors = t3 \<rparr>))))"

subsection \<open>The session and the button handlers\<close>

text \<open>
  \<open>str.lower()\<close> on the letters A to Z; Python also lowers the letters outside
  ASCII, which the bytes of a \<open>string\<close> here do not show.
\<close>

definition lower_char :: "char \<Rightarrow> char" where
  "lower_char c =
     (let n = (of_char c :: nat) in
      if 65 \<le> n \<and> n \<le> 90
      then (case c of Char b0 b1 b2 b3 b4 b5 b6 b7 \<Rightarrow> Char b0 b1 b2 b3 b4 True b6 b7)
      else c)"

definition lower :: "string \<Rightarrow> string" where
  "lower s = map lower_char s"

text \<open>
  \<open>st.session_state\<close> (lines 22 to 31). The frames start as \<open>None\<close> in the source and
  are read only once \<open>collected\<close> is set, so they start as empty lists here.
\<close>

record session =
  ss_meta_df :: "meta_row list"
  ss_media_df :: "media_row list"
  ss_colors_df :: "color_row list"
  ss_raw_data :: "raw_record list"
  ss_collected :: bool
  ss_inserted :: bool
  ss_show_choice :: bool
  ss_migrate_click :: bool
  ss_show_queries :: bool
  ss_show_tables_after_insert :: bool
  ss_combined_meta_df :: "meta_row list"
  ss_combined_media_df :: "media_row list"
  ss_combined_colors_df :: "color_row list"
  ss_inserted_classifications :: "string set"

definition session_init :: session where
  "session_init =
     \<lparr> ss_meta_df = [], ss_media_df = [], ss_colors_df = [], ss_raw_data = [],
       ss_collected = False, ss_inserted = False, ss_show_choice = False,
       ss_migrate_click = False, ss_show_queries = False,
       ss_show_tables_after_insert = False,
       ss_combined_meta_df = [], ss_combined_media_df = [], ss_combined_colors_df = [],
       ss_inserted_classifications = {} \<rparr>"

text \<open>The running application: the session and the database file.\<close>

record world =
  session :: session
  database :: store

text \<open>What a handler shows to the user.\<close>

datatype outcome =
    EnterClassification          \<comment> \<open>\<open>st.warning("Please enter a classification to begin.")\<close>\<close>
  | AlreadyInserted              \<comment> \<open>\<open>st.error\<close> of the Collect Data handler, line 273\<close>
  | CollectFailed error          \<comment> \<open>\<open>st.error("Failed to collect data: ...")\<close>\<close>
  | Collected nat                \<comment> \<open>\<open>st.success("Collected n records ...")\<close>\<close>
  | NoInsertButton               \<comment> \<open>the Insert button is not on the page\<close>
  | AlreadyExists                \<comment> \<open>\<open>st.error\<close> of the Insert handler, line 348\<close>
  | InsertFailed error           \<comment> \<open>\<open>st.error("Insert failed: ...")\<close>\<close>
  | Inserted                     \<comment> \<open>\<open>st.success("Data inserted into database successfully.")\<close>\<close>
  | ViewChanged

text \<open>The Collect Data button (lines 270 to 292); \<open>classification\<close> is the text of the input box.\<close>

definition collect_data :: "api \<Rightarrow> string \<Rightarrow> world \<Rightarrow> (world \<times> outcome) option" where
  "collect_data remote classification w =
     (if classification = [] then Some (w, EnterClassification)
      else if lower classification \<in> ss_inserted_classifications (session w)
      then Some (w, AlreadyInserted)
      else
        (case fetch_data remote classification DEFAULT_FETCH_LIMIT of
           None \<Rightarrow> None
         | Some (Inl e) \<Rightarrow> Some (w, CollectFailed e)
         | Some (Inr (meta_df, media_df, colors_df, raw)) \<Rightarrow>
             Some (w\<lparr> session := (session w)
                       \<lparr> ss_meta_df := meta_df, ss_media_df := media_df,
                         ss_colors_df := colors_df, ss_raw_data := raw,
                         ss_collected := True, ss_inserted := False,
                         ss_show_choice := True, ss_migrate_click := False,
                         ss_show_queries := False,
                         ss_show_tables_after_insert := False \<rparr> \<rparr>,
                   Collected (length meta_df))))"

text \<open>
  The Insert button (lines 341 to 363). It is on the page only under
  \<open>migrate_click\<close> and \<open>collected\<close>. The frames written are those of the session; the
  classification checked and marked is the text of the input box at the click.
\<close>

definition insert_button :: "string \<Rightarrow> world \<Rightarrow> world \<times> outcome" where
  "insert_button classification w =
     (let ss = session w in
      if \<not> (ss_migrate_click ss \<and> ss_collected ss) then (w, NoInsertButton)
      else if lower classification \<in> ss_inserted_classifications ss then (w, AlreadyExists)
      else
        (case insert_frames (database w) (ss_meta_df ss) (ss_media_df ss) (ss_colors_df ss) of
           (Some e, db') \<Rightarrow> (w\<lparr> database := db' \<rparr>, InsertFailed e)
         | (None, db') \<Rightarrow>
             (\<lparr> session = ss
                  \<lparr> ss_inserted := True, ss_show_tables_after_insert := True,
                    ss_inserted_classifications :=
                      insert (lower classification) (ss_inserted_classifications ss),
                    ss_combined_meta_df :=
                      drop_duplicates meta_id (ss_combined_meta_df ss @ ss_meta_df ss),
                    ss_combined_media_df :=
                      drop_duplicates media_object_id (ss_combined_media_df ss @ ss_media_df ss),
                    ss_combined_colors_df :=
                      drop_duplicates color_key (ss_combined_colors_df ss @ ss_colors_df ss) \<rparr>,
                database = db' \<rparr>, Inserted)))"

text \<open>The three view buttons (lines 298 to 314).\<close>

definition show_view :: "bool \<Rightarrow> bool \<Rightarrow> bool \<Rightarrow> world \<Rightarrow> world" where
  "show_view choice migrate queries w =
     w\<lparr> session := (session w)
         \<lparr> ss_show_choice := choice, ss_migrate_click := migrate,
           ss_show_queries := queries, ss_show_tables_after_insert := False \<rparr> \<rparr>"

text \<open>
  One run of the script is one click; the text of the input box comes with the two
  clicks that read it.
\<close>

datatype event =
    ClickCollectData string
  | ClickCollectedData
  | ClickMigrateToSQL
  | ClickSQLQueries
  | ClickInsert string

fun handle :: "api \<Rightarrow> event \<Rightarrow> world \<Rightarrow> (world \<times> outcome) option" where
  "handle remote (ClickCollectData c) w = collect_data remote c w"
| "handle remote ClickCollectedData w = Some (show_view True False False w, ViewChanged)"
| "handle remote ClickMigrateToSQL w = Some (show_view False True False w, ViewChanged)"
| "handle remote ClickSQLQueries w = Some (show_view False False True w, ViewChanged)"
| "handle remote (ClickInsert c) w = Some (insert_button c w)"

fun run :: "api \<Rightarrow> event list \<Rightarrow> world \<Rightarrow> world option" where
  "run remote [] w = Some w"
| "run remote (ev # evs) w =
     (case handle remote ev w of None \<Rightarrow> None | Some (w', out) \<Rightarrow> run remote evs w')"

subsection \<open>Notions used in the statements\<close>

text \<open>
  The table after a list of INSERT OR REPLACE statements whose keys are all present.
\<close>

definition replace_all :: "('r \<Rightarrow> 'k) \<Rightarrow> 'r list \<Rightarrow> 'r list \<Rightarrow> 'r list" where
  "replace_all key t rs = foldl (\<lambda>t r. replace_row key r t) t rs"

text \<open>
  A batch has its keys when no primary key column of a row is null: \<open>id\<close>,
  \<open>object_id\<close>, and both \<open>object_id\<close> and \<open>hue\<close> of a color row.
\<close>

definition keys_present :: "meta_row list \<Rightarrow> media_row list \<Rightarrow> color_row list \<Rightarrow> bool" where
  "keys_present meta_df media_df colors_df \<longleftrightarrow>
     (\<forall>r\<in>set meta_df. meta_id r \<noteq> None) \<and>
     (\<forall>r\<in>set media_df. media_object_id r \<noteq> None) \<and>
     (\<forall>r\<in>set colors_df. color_object_id r \<noteq> None \<and> color_hue r \<noteq> None)"

text \<open>The rows that sqlite3 can bind.\<close>

definition binds_meta :: "meta_row \<Rightarrow> bool" where
  "binds_meta r \<longleftrightarrow> bind_ok (meta_id r) \<and> bind_ok (meta_accessionyear r)"

definition binds_media :: "media_row \<Rightarrow> bool" where
  "binds_media r \<longleftrightarrow> bind_ok (media_object_id r) \<and> bind_ok (media_imagecount r) \<and>
             bind_ok (media_mediacount r) \<and> bind_ok (media_colorcount r) \<and>
             bind_ok (media_datedbegin r) \<and> bind_ok (media_datedend r)"

text \<open>
  A sequence of calls of \<open>insert_frames\<close>, one per batch; a call that fails leaves
  the store as it was.
\<close>

fun upsert_all :: "store \<Rightarrow> (meta_row list \<times> media_row list \<times> color_row list) list \<Rightarrow> store" where
  "upsert_all db [] = db"
| "upsert_all db ((meta_df, media_df, colors_df) # batches) =
     upsert_all (snd (insert_frames db meta_df media_df colors_df)) batches"

text \<open>
  Key uniqueness, first read literally (no two rows with the same key cells), then
  restricted in the colors table to the rows whose key has no null.
\<close>

definition keys_unique :: "store \<Rightarrow> bool" where
  "keys_unique db \<longleftrightarrow>
     distinct (map meta_id (artifact_metadata db)) \<and>
     distinct (map media_object_id (artifact_media db)) \<and>
     distinct (map color_key (artifact_colors db))"

definition key_not_null :: "color_row \<Rightarrow> bool" where
  "key_not_null r \<longleftrightarrow> color_object_id r \<noteq> None \<and> color_hue r \<noteq> None"

definition rowid_table :: "('r \<Rightarrow> int option) \<Rightarrow> 'r list \<Rightarrow> bool" where
  "rowid_table key t \<longleftrightarrow> distinct (map key t) \<and> None \<notin> set (map key t)"

definition keys_unique_not_null :: "store \<Rightarrow> bool" where
  "keys_unique_not_null db \<longleftrightarrow>
     distinct (map meta_id (artifact_metadata db)) \<and>
     None \<notin> set (map meta_id (artifact_metadata db)) \<and>
     distinct (map media_object_id (artifact_media db)) \<and>
     None \<notin> set (map media_object_id (artifact_media db)) \<and>
     distinct (map color_key (filter key_not_null (artifact_colors db)))"

text \<open>Every batch of a sequence has its keys.\<close>

definition batches_keyed :: "(meta_row list \<times> media_row list \<times> color_row list) list \<Rightarrow> bool" where
  "batches_keyed batches \<longleftrightarrow>
     (\<forall>(meta_df, media_df, colors_df) \<in> set batches. keys_present meta_df media_df colors_df)"

text \<open>The frames of the loop are the images of the raw records fetched so far.\<close>

definition rows_of_records :: "string \<Rightarrow> fetch_state \<Rightarrow> bool" where
  "rows_of_records classification st \<longleftrightarrow>
     meta_rows st = map (meta_row_of classification) (raw_records st) \<and>
     media_rows st = map media_row_of (raw_records st) \<and>
     color_rows st = concat (map color_rows_of (raw_records st))"

text \<open>The session tracker, rows with a hue, and the application at its start.\<close>

definition tracker :: "world \<Rightarrow> string set" where
  "tracker w = ss_inserted_classifications (session w)"

definition hues_present :: "color_row list \<Rightarrow> bool" where
  "hues_present rows \<longleftrightarrow> (\<forall>r\<in>set rows. color_hue r \<noteq> None)"

definition hue_inv :: "world \<Rightarrow> bool" where
  "hue_inv w \<longleftrightarrow> hues_present (ss_colors_df (session w)) \<and> hues_present (artifact_colors (database w))"

definition world_start :: world where
  "world_start = \<lparr> session = session_init, database = init_db None \<rparr>"

subsection \<open>Example inputs\<close>

text \<open>
  A record with nothing but an id, a title and colors; two records with the same id,
  the first with a color entry without hue and two entries of the same hue; a record
  without id.
\<close>

definition blank_record :: raw_record where
  "blank_record =
     \<lparr> raw_id = None, raw_title = None, raw_culture = None, raw_dated = None,
       raw_period = None, raw_division = None, raw_medium = None, raw_dimensions = None,
       raw_weight = None, raw_department = None, raw_accessionyear = None,
       raw_imagecount = None, raw_mediacount = None, raw_colorcount = None,
       raw_rank = None, raw_datedbegin = None, raw_datedend = None, raw_colors = [] \<rparr>"

definition example_entry :: "string option \<Rightarrow> rat \<Rightarrow> color_entry" where
  "example_entry h p = \<lparr> entry_hue = h, entry_percent = Some p \<rparr>"

definition example_record :: "int option \<Rightarrow> string \<Rightarrow> color_entry list \<Rightarrow> raw_record" where
  "example_record i t cs = blank_record \<lparr> raw_id := i, raw_title := Some t, raw_colors := cs \<rparr>"

definition first_record :: raw_record where
  "first_record = example_record (Some 7) ''first''
     [example_entry (Some ''Red'') (1/2), example_entry None (1/4), example_entry (Some ''Red'') (1/8)]"

definition second_record :: raw_record where
  "second_record = example_record (Some 7) ''second'' []"

definition anonymous_record :: raw_record where
  "anonymous_record = example_record None ''unnumbered''
     [example_entry (Some ''Red'') (1/2), example_entry (Some ''Red'') (1/4)]"

definition red_half :: color_row where
  "red_half = \<lparr> color_object_id = Some 7, color_hue = Some ''Red'', color_percentage = Some (1/2) \<rparr>"

definition red_eighth :: color_row where
  "red_eighth = \<lparr> color_object_id = Some 7, color_hue = Some ''Red'', color_percentage = Some (1/8) \<rparr>"

definition overflow_media_row :: media_row where
  "overflow_media_row = (media_row_of first_record) \<lparr> media_object_id := Some (2 ^ 63) \<rparr>"

text \<open>
  Four remote APIs, each with one page of records: both records with id 7; one record
  with two colors; one record followed by a failing second page; the record without id.
\<close>

definition twice_api :: api where
  "twice_api classification p =
     (if p = 1 then HttpOk \<lparr> payload_records = [first_record, second_record],
                              payload_info = Some (Some 1) \<rparr>
      else HttpFailed)"

definition palette_api :: api where
  "palette_api classification p =
     (if p = 1 then
        HttpOk \<lparr> payload_records =
                   [example_record (Some 3) ''vase''
                      [example_entry (Some ''Blue'') (1/2), example_entry (Some ''Green'') (1/2)]],
                 payload_info = Some (Some 1) \<rparr>
      else HttpFailed)"

definition failing_api :: api where
  "failing_api classification p =
     (if p = 1 then HttpOk \<lparr> payload_records = [first_record], payload_info = None \<rparr>
      else HttpFailed)"

definition anonymous_api :: api where
  "anonymous_api classification p =
     (if p = 1 then HttpOk \<lparr> payload_records = [anonymous_record], payload_info = Some (Some 1) \<rparr>
      else HttpFailed)"

definition after_first_page :: fetch_state where
  "after_first_page =
     \<lparr> raw_records = [first_record], meta_rows = [meta_row_of ''Coins'' first_record],
       media_rows = [media_row_of first_record], color_rows = color_rows_of first_record,
       page = 2, collected = 1 \<rparr>"

text \<open>A store with rows for id 7, and an application ready for the Insert button.\<close>

definition example_store :: store where
  "example_store =
     \<lparr> artifact_metadata = [meta_row_of ''Prints'' second_record],
       artifact_media = [],
       artifact_colors = [\<lparr> color_object_id = Some 7, color_hue = Some ''Red'', color_percentage = None \<rparr>,
                          \<lparr> color_object_id = Some 7, color_hue = Some ''Blue'', color_percentage = None \<rparr>] \<rparr>"

definition example_world :: world where
  "example_world =
     \<lparr> session = session_init
         \<lparr> ss_meta_df := [meta_row_of ''Paintings'' first_record],
           ss_media_df := [media_row_of first_record],
           ss_colors_df := [red_half, red_eighth],
           ss_collected := True, ss_migrate_click := True \<rparr>,
       database = empty_store \<rparr>"

section \<open>Properties\<close>

subsection \<open>Evaluation of the examples\<close>

lemmas example_defs = blank_record_def example_entry_def example_record_def first_record_def
  second_record_def red_half_def red_eighth_def meta_row_of_def media_row_of_def color_rows_of_def

lemmas fetch_defs = fetch_data_def fetch_loop.simps fetch_body_def fetch_init_def
  fetch_finish_def drop_duplicates_def dropna_hue_def

lemmas store_defs = insert_frames_def replace_metadata_def replace_media_def replace_colors_def
  replace_row_def bind_ok_def color_key_def next_rowid_def empty_store_def init_db_def

lemma twice_api_fetch:
  "fetch_data twice_api ''Coins'' limit =
     (if 0 < limit then
        Some (Inr ([meta_row_of ''Coins'' first_record], [media_row_of first_record],
                   [red_half, red_eighth], [first_record, second_record]))
      else Some (Inl KeyError))"
  by (simp add: fetch_defs twice_api_def example_defs)

lemma palette_api_fetch:
  "fetch_data palette_api ''Coins'' 1 =
     Some (Inr ([meta_row_of ''Coins'' (example_record (Some 3) ''vase''
                      [example_entry (Some ''Blue'') (1/2), example_entry (Some ''Green'') (1/2)])],
                [media_row_of (example_record (Some 3) ''vase''
                      [example_entry (Some ''Blue'') (1/2), example_entry (Some ''Green'') (1/2)])],
                [\<lparr> color_object_id = Some 3, color_hue = Some ''Blue'', color_percentage = Some (1/2) \<rparr>,
                 \<lparr> color_object_id = Some 3, color_hue = Some ''Green'', color_percentage = Some (1/2) \<rparr>],
                [example_record (Some 3) ''vase''
                      [example_entry (Some ''Blue'') (1/2), example_entry (Some ''Green'') (1/2)]]))"
  by (simp add: fetch_defs palette_api_def example_defs)

lemma anonymous_api_fetch:
  "fetch_data anonymous_api ''Coins'' 5 =
     Some (Inr ([meta_row_of ''Coins'' anonymous_record], [media_row_of anonymous_record],
                [\<lparr> color_object_id = None, color_hue = Some ''Red'', color_percentage = Some (1/2) \<rparr>,
                 \<lparr> color_object_id = None, color_hue = Some ''Red'', color_percentage = Some (1/4) \<rparr>],
                [anonymous_record]))"
  by (simp add: fetch_defs anonymous_api_def anonymous_record_def example_defs)

subsection \<open>INSERT OR REPLACE on present keys\<close>

lemma replace_all_Nil [simp]: "replace_all key t [] = t"
  by (simp add: replace_all_def)

lemma replace_all_Cons [simp]: "replace_all key t (r # rs) = replace_all key (replace_row key r t) rs"
  by (simp add: replace_all_def)

lemma replace_all_snoc: "replace_all key t (rs @ [r]) = replace_row key r (replace_all key t rs)"
  by (simp add: replace_all_def)

lemma replace_all_split:
  "replace_all key t rs = filter (\<lambda>x. key x \<notin> key ` set rs) t @ replace_all key [] rs"
proof (induction rs arbitrary: t)
  case Nil
  then show ?case by simp
next
  case (Cons r rs)
  have tail: "replace_all key [] (r # rs)
      = filter (\<lambda>x. key x \<notin> key ` set rs) [r] @ replace_all key [] rs"
    using Cons.IH [of "[r]"] by (simp add: replace_row_def)
  have "replace_all key t (r # rs) = replace_all key (replace_row key r t) rs" by simp
  also have "\<dots> = filter (\<lambda>x. key x \<notin> key ` set rs) (replace_row key r t) @ replace_all key [] rs"
    by (rule Cons.IH)
  also have "filter (\<lambda>x. key x \<notin> key ` set rs) (replace_row key r t)
      = filter (\<lambda>x. key x \<notin> key ` set (r # rs)) t @ filter (\<lambda>x. key x \<notin> key ` set rs) [r]"
    by (simp add: replace_row_def)
  finally show ?case using tail by simp
qed

lemma replace_all_keys: "x \<in> set (replace_all key [] rs) \<Longrightarrow> key x \<in> key ` set rs"
proof (induction rs rule: rev_induct)
  case Nil
  then show ?case by simp
next
  case (snoc r rs)
  then show ?case by (auto simp: replace_all_snoc replace_row_def)
qed

lemma replace_all_idem: "replace_all key (replace_all key t rs) rs = replace_all key t rs"
proof -
  have "filter (\<lambda>x. key x \<notin> key ` set rs) (replace_all key [] rs) = []"
    by (auto simp: filter_empty_conv dest: replace_all_keys)
  then have "filter (\<lambda>x. key x \<notin> key ` set rs) (replace_all key t rs)
      = filter (\<lambda>x. key x \<notin> key ` set rs) t"
    by (subst replace_all_split) simp
  then show ?thesis
    by (subst replace_all_split) (simp add: replace_all_split [symmetric])
qed

lemma insert_frames_alt:
  "insert_frames db meta_df media_df colors_df =
     (case executemany replace_metadata (artifact_metadata db) meta_df of
        Inl e \<Rightarrow> (Some e, db)
      | Inr t1 \<Rightarrow>
     (case executemany replace_media (artifact_media db) media_df of
        Inl e \<Rightarrow> (Some e, db)
      | Inr t2 \<Rightarrow>
     (case executemany replace_colors (artifact_colors db) colors_df of
        Inl e \<Rightarrow> (Some e, db)
      | Inr t3 \<Rightarrow>
          (None, \<lparr> artifact_metadata = t1, artifact_media = t2, artifact_colors = t3 \<rparr>))))"
proof -
  have *: "\<And>stmt t rs. (if rs \<noteq> [] then executemany stmt t rs else Inr t) = executemany stmt t rs"
    by simp
  show ?thesis unfolding insert_frames_def * ..
qed

lemma executemany_replace_all:
  assumes "\<And>r t. r \<in> set rs \<Longrightarrow> stmt r t = (if ok r then Inr (replace_row key r t) else Inl e)"
  shows "executemany stmt t rs = (if \<forall>r\<in>set rs. ok r then Inr (replace_all key t rs) else Inl e)"
  using assms
proof (induction rs arbitrary: t)
  case Nil
  then show ?case by simp
next
  case (Cons r rs)
  then show ?case by (cases "ok r") auto
qed

lemma replace_metadata_key:
  "meta_id r \<noteq> None \<Longrightarrow>
   replace_metadata r t = (if binds_meta r then Inr (replace_row meta_id r t) else Inl OverflowError)"
  by (auto simp: replace_metadata_def binds_meta_def)

lemma replace_media_key:
  "media_object_id r \<noteq> None \<Longrightarrow>
   replace_media r t = (if binds_media r then Inr (replace_row media_object_id r t) else Inl OverflowError)"
  by (auto simp: replace_media_def binds_media_def)

lemma replace_colors_key:
  "color_object_id r \<noteq> None \<and> color_hue r \<noteq> None \<Longrightarrow>
   replace_colors r t =
     (if bind_ok (color_object_id r) then Inr (replace_row color_key r t) else Inl OverflowError)"
  by (auto simp: replace_colors_def)

lemma executemany_metadata:
  assumes "\<forall>r\<in>set rs. meta_id r \<noteq> None"
  shows "executemany replace_metadata t rs =
     (if \<forall>r\<in>set rs. binds_meta r then Inr (replace_all meta_id t rs) else Inl OverflowError)"
  by (rule executemany_replace_all) (simp add: assms replace_metadata_key)

lemma executemany_media:
  assumes "\<forall>r\<in>set rs. media_object_id r \<noteq> None"
  shows "executemany replace_media t rs =
     (if \<forall>r\<in>set rs. binds_media r then Inr (replace_all media_object_id t rs) else Inl OverflowError)"
  by (rule executemany_replace_all) (simp add: assms replace_media_key)

lemma executemany_colors:
  assumes "\<forall>r\<in>set rs. color_object_id r \<noteq> None \<and> color_hue r \<noteq> None"
  shows "executemany replace_colors t rs =
     (if \<forall>r\<in>set rs. bind_ok (color_object_id r) then Inr (replace_all color_key t rs)
      else Inl OverflowError)"
  by (rule executemany_replace_all) (simp add: assms replace_colors_key)

lemma executemany_twice:
  assumes "\<And>t. executemany stmt t rs = (if ok then Inr (replace_all key t rs) else Inl e)"
    and "executemany stmt t rs = Inr t'"
  shows "executemany stmt t' rs = Inr t'"
proof -
  from assms have ok and t': "t' = replace_all key t rs"
    by (auto split: if_splits)
  show ?thesis
    by (simp add: assms(1) \<open>ok\<close> t' replace_all_idem)
qed

lemma insert_frames_failed: "insert_frames db m me c = (Some e, db') \<Longrightarrow> db' = db"
  by (auto simp: insert_frames_def split: sum.splits if_splits)

lemma insert_frames_twice:
  assumes "keys_present m me c" and "insert_frames db m me c = (None, db')"
  shows "insert_frames db' m me c = (None, db')"
proof -
  from assms(2) obtain t1 t2 t3 where
    t1: "executemany replace_metadata (artifact_metadata db) m = Inr t1"
    and t2: "executemany replace_media (artifact_media db) me = Inr t2"
    and t3: "executemany replace_colors (artifact_colors db) c = Inr t3"
    and db': "db' = \<lparr> artifact_metadata = t1, artifact_media = t2, artifact_colors = t3 \<rparr>"
    by (auto simp: insert_frames_alt split: sum.splits)
  from assms(1) have km: "\<forall>r\<in>set m. meta_id r \<noteq> None"
    and kme: "\<forall>r\<in>set me. media_object_id r \<noteq> None"
    and kc: "\<forall>r\<in>set c. color_object_id r \<noteq> None \<and> color_hue r \<noteq> None"
    by (simp_all add: keys_present_def)
  have 1: "executemany replace_metadata t1 m = Inr t1"
    using executemany_metadata [OF km] t1 by (rule executemany_twice)
  have 2: "executemany replace_media t2 me = Inr t2"
    using executemany_media [OF kme] t2 by (rule executemany_twice)
  have 3: "executemany replace_colors t3 c = Inr t3"
    using executemany_colors [OF kc] t3 by (rule executemany_twice)
  show ?thesis
    by (simp add: insert_frames_alt db' 1 2 3)
qed

text \<open>
  Claim C1 (upsert idempotence). For every batch of metadata, media and color rows
  whose key columns are present, calling \<open>insert_frames\<close> a second time on the same
  batch gives the same result as the first call: the same outcome and the same three
  tables, row for row. When the first call fails the store is unchanged, so the second
  call is the first one again.
\<close>

theorem upsert_idempotent:
  assumes "keys_present meta_df media_df colors_df"
  shows "insert_frames (snd (insert_frames db meta_df media_df colors_df)) meta_df media_df colors_df
       = insert_frames db meta_df media_df colors_df"
proof (cases "insert_frames db meta_df media_df colors_df")
  case (Pair out db')
  show ?thesis
  proof (cases out)
    case None
    with Pair assms show ?thesis by (simp add: insert_frames_twice)
  next
    case (Some e)
    with Pair have "db' = db" by (simp add: insert_frames_failed)
    with Pair show ?thesis by simp
  qed
qed

text \<open>
  An instance: the batch fetched from \<open>twice_api\<close> written into a store that already
  holds a metadata row and two color rows for id 7.
\<close>

theorem upsert_idempotent_witness:
  "keys_present [meta_row_of ''Coins'' first_record] [media_row_of first_record] [red_half, red_eighth] \<and>
   insert_frames example_store [meta_row_of ''Coins'' first_record] [media_row_of first_record]
       [red_half, red_eighth] =
     (None, \<lparr> artifact_metadata = [meta_row_of ''Coins'' first_record],
              artifact_media = [media_row_of first_record],
              artifact_colors = [\<lparr> color_object_id = Some 7, color_hue = Some ''Blue'', color_percentage = None \<rparr>,
                                 red_eighth] \<rparr>) \<and>
   insert_frames (snd (insert_frames example_store [meta_row_of ''Coins'' first_record]
       [media_row_of first_record] [red_half, red_eighth]))
       [meta_row_of ''Coins'' first_record] [media_row_of first_record] [red_half, red_eighth] =
     insert_frames example_store [meta_row_of ''Coins'' first_record] [media_row_of first_record]
       [red_half, red_eighth]"
proof -
  have k: "keys_present [meta_row_of ''Coins'' first_record] [media_row_of first_record] [red_half, red_eighth]"
    by (simp add: keys_present_def example_defs)
  have v: "insert_frames example_store [meta_row_of ''Coins'' first_record] [media_row_of first_record]
       [red_half, red_eighth] =
     (None, \<lparr> artifact_metadata = [meta_row_of ''Coins'' first_record],
              artifact_media = [media_row_of first_record],
              artifact_colors = [\<lparr> color_object_id = Some 7, color_hue = Some ''Blue'', color_percentage = None \<rparr>,
                                 red_eighth] \<rparr>)"
    by (simp add: store_defs example_store_def example_defs)
  from k v upsert_idempotent [OF k, of example_store] show ?thesis by simp
qed

text \<open>
  The keys have to be present. A metadata row without id is given a fresh rowid by
  each INSERT, so writing it twice leaves two rows.
\<close>

lemma upsert_null_id_example:
  "map meta_id (artifact_metadata (snd (insert_frames empty_store
      [meta_row_of ''Coins'' anonymous_record] [] []))) = [Some 1] \<and>
   map meta_id (artifact_metadata (snd (insert_frames (snd (insert_frames empty_store
      [meta_row_of ''Coins'' anonymous_record] [] []))
      [meta_row_of ''Coins'' anonymous_record] [] []))) = [Some 1, Some 2]"
  by (simp add: store_defs anonymous_record_def example_defs)

subsection \<open>Failure of a write\<close>

text \<open>
  Claim C3 as stated (tables written earlier in a failing call stay persisted) fails.
  In the empty store the metadata frame is written without error, the media frame
  holds an \<open>object_id\<close> of \<open>2 ^ 63\<close> that sqlite3 cannot bind, and after the call the
  metadata table of the database is empty.
\<close>

theorem rollback_counterexample:
  "executemany replace_metadata (artifact_metadata empty_store) [meta_row_of ''Coins'' first_record]
     = Inr [meta_row_of ''Coins'' first_record] \<and>
   insert_frames empty_store [meta_row_of ''Coins'' first_record] [overflow_media_row] []
     = (Some OverflowError, empty_store) \<and>
   artifact_metadata (snd (insert_frames empty_store [meta_row_of ''Coins'' first_record]
        [overflow_media_row] [])) = []"
  by (simp add: store_defs overflow_media_row_def example_defs)

lemma executemany_append:
  "executemany stmt t (rs @ rs') =
     (case executemany stmt t rs of Inl e \<Rightarrow> Inl e | Inr t' \<Rightarrow> executemany stmt t' rs')"
  by (induction rs arbitrary: t) (auto split: sum.splits)

text \<open>
  Claim C3, amended (failure of a write). When writing one of the three tables fails,
  \<open>insert_frames\<close> raises before its only commit: no row of the batch is persisted,
  and the three tables of the store are the ones before the call, the tables written
  earlier in the call included. Within one table, the statement that fails ends
  \<open>executemany\<close> with its error, whatever rows follow.
\<close>

theorem failed_upsert_rolls_back:
  "(fst (insert_frames db meta_df media_df colors_df) = Some e \<longrightarrow>
      snd (insert_frames db meta_df media_df colors_df) = db) \<and>
   (executemany stmt t rs = Inr t' \<longrightarrow> stmt r t' = Inl e' \<longrightarrow>
      executemany stmt t (rs @ r # rest) = Inl e')"
proof (intro conjI impI)
  assume failed: "fst (insert_frames db meta_df media_df colors_df) = Some e"
  obtain out db' where call: "insert_frames db meta_df media_df colors_df = (out, db')"
    by (cases "insert_frames db meta_df media_df colors_df")
  with failed have "insert_frames db meta_df media_df colors_df = (Some e, db')" by simp
  then have "db' = db" by (rule insert_frames_failed)
  with call show "snd (insert_frames db meta_df media_df colors_df) = db" by simp
next
  assume "executemany stmt t rs = Inr t'" and "stmt r t' = Inl e'"
  then show "executemany stmt t (rs @ r # rest) = Inl e'"
    by (simp add: executemany_append)
qed

text \<open>
  An instance: the store with rows for id 7, a batch whose media frame has the row
  that cannot be bound between two rows that can.
\<close>

theorem failed_upsert_rolls_back_witness:
  "fst (insert_frames example_store [meta_row_of ''Coins'' first_record]
       [media_row_of first_record, overflow_media_row, media_row_of second_record] [red_half])
     = Some OverflowError \<and>
   snd (insert_frames example_store [meta_row_of ''Coins'' first_record]
       [media_row_of first_record, overflow_media_row, media_row_of second_record] [red_half])
     = example_store \<and>
   executemany replace_media [] [media_row_of first_record] = Inr [media_row_of first_record] \<and>
   replace_media overflow_media_row [media_row_of first_record] = Inl OverflowError \<and>
   executemany replace_media []
       ([media_row_of first_record] @ overflow_media_row # [media_row_of second_record])
     = Inl OverflowError"
proof -
  have a: "fst (insert_frames example_store [meta_row_of ''Coins'' first_record]
       [media_row_of first_record, overflow_media_row, media_row_of second_record] [red_half])
     = Some OverflowError"
    by (simp add: store_defs overflow_media_row_def example_store_def example_defs)
  have b: "executemany replace_media [] [media_row_of first_record] = Inr [media_row_of first_record]"
    by (simp add: store_defs example_defs)
  have c: "replace_media overflow_media_row [media_row_of first_record] = Inl OverflowError"
    by (simp add: store_defs overflow_media_row_def example_defs)
  from failed_upsert_rolls_back [of example_store "[meta_row_of ''Coins'' first_record]"
      "[media_row_of first_record, overflow_media_row, media_row_of second_record]" "[red_half]"
      OverflowError replace_media "[]" "[media_row_of first_record]" "[media_row_of first_record]"
      overflow_media_row OverflowError "[media_row_of second_record]"] a b c
  show ?thesis by blast
qed

subsection \<open>Key uniqueness\<close>

lemma distinct_replace_row:
  "distinct (map key t) \<Longrightarrow> distinct (map key (replace_row key r t))"
  by (auto simp: replace_row_def distinct_map_filter)

lemma max_rowid_ge: "Some i \<in> set ks \<Longrightarrow> \<exists>m. max_rowid ks = Some m \<and> i \<le> m"
  by (induction ks) (auto split: option.splits)

lemma next_rowid_fresh: "next_rowid ks = Inr k \<Longrightarrow> Some k \<notin> set ks"
  by (auto simp: next_rowid_def split: option.splits if_splits dest: max_rowid_ge)

lemma replace_metadata_inv:
  assumes "replace_metadata r t = Inr t'" and "rowid_table meta_id t"
  shows "rowid_table meta_id t'"
proof (cases "meta_id r")
  case None
  with assms(1) obtain k where k: "next_rowid (map meta_id t) = Inr k"
    and t': "t' = t @ [r\<lparr>meta_id := Some k\<rparr>]"
    by (auto simp: replace_metadata_def split: if_splits sum.splits)
  from k have "Some k \<notin> set (map meta_id t)" by (rule next_rowid_fresh)
  with assms(2) show ?thesis by (simp add: rowid_table_def t')
next
  case (Some k)
  with assms(1) have t': "t' = replace_row meta_id r t"
    by (auto simp: replace_metadata_def split: if_splits)
  from assms(2) have "distinct (map meta_id t')"
    unfolding t' rowid_table_def by (simp add: distinct_replace_row)
  moreover from assms(2) Some have "None \<notin> set (map meta_id t')"
    unfolding t' rowid_table_def by (auto simp: replace_row_def)
  ultimately show ?thesis by (simp add: rowid_table_def)
qed

lemma replace_media_inv:
  assumes "replace_media r t = Inr t'" and "rowid_table media_object_id t"
  shows "rowid_table media_object_id t'"
proof (cases "media_object_id r")
  case None
  with assms(1) obtain k where k: "next_rowid (map media_object_id t) = Inr k"
    and t': "t' = t @ [r\<lparr>media_object_id := Some k\<rparr>]"
    by (auto simp: replace_media_def split: if_splits sum.splits)
  from k have "Some k \<notin> set (map media_object_id t)" by (rule next_rowid_fresh)
  with assms(2) show ?thesis by (simp add: rowid_table_def t')
next
  case (Some k)
  with assms(1) have t': "t' = replace_row media_object_id r t"
    by (auto simp: replace_media_def split: if_splits)
  from assms(2) have "distinct (map media_object_id t')"
    unfolding t' rowid_table_def by (simp add: distinct_replace_row)
  moreover from assms(2) Some have "None \<notin> set (map media_object_id t')"
    unfolding t' rowid_table_def by (auto simp: replace_row_def)
  ultimately show ?thesis by (simp add: rowid_table_def)
qed

lemma replace_colors_inv:
  assumes "replace_colors r t = Inr t'"
    and "distinct (map color_key (filter key_not_null t))"
  shows "distinct (map color_key (filter key_not_null t'))"
proof (cases "key_not_null r")
  case True
  with assms(1) have t': "t' = replace_row color_key r t"
    by (auto simp: replace_colors_def key_not_null_def split: if_splits)
  have "filter key_not_null t' = replace_row color_key r (filter key_not_null t)"
    unfolding t' replace_row_def using True by (simp add: conj_commute)
  with assms(2) show ?thesis by (simp add: distinct_replace_row)
next
  case False
  with assms(1) have "t' = t @ [r]"
    by (auto simp: replace_colors_def key_not_null_def split: if_splits)
  with False assms(2) show ?thesis by simp
qed

lemma executemany_inv:
  assumes "\<And>r t t'. stmt r t = Inr t' \<Longrightarrow> P t \<Longrightarrow> P t'"
  shows "executemany stmt t rs = Inr t' \<Longrightarrow> P t \<Longrightarrow> P t'"
proof (induction rs arbitrary: t)
  case Nil
  then show ?case by simp
next
  case (Cons r rs)
  then show ?case by (auto split: sum.splits dest: assms)
qed

lemma keys_unique_not_null_alt:
  "keys_unique_not_null db \<longleftrightarrow>
     rowid_table meta_id (artifact_metadata db) \<and>
     rowid_table media_object_id (artifact_media db) \<and>
     distinct (map color_key (filter key_not_null (artifact_colors db)))"
  by (auto simp: keys_unique_not_null_def rowid_table_def)

lemma insert_frames_inv:
  assumes "keys_unique_not_null db"
  shows "keys_unique_not_null (snd (insert_frames db m me c))"
proof (cases "insert_frames db m me c")
  case (Pair out db')
  show ?thesis
  proof (cases out)
    case (Some e)
    with Pair have "db' = db" by (simp add: insert_frames_failed)
    with Pair assms show ?thesis by simp
  next
    case None
    with Pair obtain t1 t2 t3 where
      t1: "executemany replace_metadata (artifact_metadata db) m = Inr t1"
      and t2: "executemany replace_media (artifact_media db) me = Inr t2"
      and t3: "executemany replace_colors (artifact_colors db) c = Inr t3"
      and db': "db' = \<lparr> artifact_metadata = t1, artifact_media = t2, artifact_colors = t3 \<rparr>"
      by (auto simp: insert_frames_alt split: sum.splits)
    from assms have a: "rowid_table meta_id (artifact_metadata db)"
      and b: "rowid_table media_object_id (artifact_media db)"
      and c: "distinct (map color_key (filter key_not_null (artifact_colors db)))"
      by (simp_all add: keys_unique_not_null_alt)
    have "rowid_table meta_id t1"
      using t1 a by (rule executemany_inv [rotated]) (rule replace_metadata_inv)
    moreover have "rowid_table media_object_id t2"
      using t2 b by (rule executemany_inv [rotated]) (rule replace_media_inv)
    moreover have "distinct (map color_key (filter key_not_null t3))"
      using t3 c by (rule executemany_inv [rotated]) (rule replace_colors_inv)
    ultimately show ?thesis
      using Pair by (simp add: keys_unique_not_null_alt db')
  qed
qed

lemma empty_store_inv: "keys_unique_not_null empty_store"
  by (simp add: keys_unique_not_null_def empty_store_def)

text \<open>
  For batches of any rows: the ids of artifact\_metadata and artifact\_media stay
  distinct and present, and the rows of artifact\_colors with a present key stay
  distinct in their keys.
\<close>

lemma upsert_all_keys_unique_not_null: "keys_unique_not_null (upsert_all (init_db None) batches)"
proof -
  have "init_db None = empty_store" by (simp add: init_db_def)
  then have start: "keys_unique_not_null (init_db None)" by (simp add: empty_store_inv)
  have step: "keys_unique_not_null (upsert_all db batches)" if "keys_unique_not_null db" for db
    using that
  proof (induction batches arbitrary: db)
    case Nil
    then show ?case by simp
  next
    case (Cons batch batches)
    obtain meta_df media_df colors_df where batch: "batch = (meta_df, media_df, colors_df)"
      by (cases batch) auto
    from Cons.prems have "keys_unique_not_null (snd (insert_frames db meta_df media_df colors_df))"
      by (rule insert_frames_inv)
    then have "keys_unique_not_null
        (upsert_all (snd (insert_frames db meta_df media_df colors_df)) batches)"
      by (rule Cons.IH)
    with batch show ?case by simp
  qed
  from start show ?thesis by (rule step)
qed

text \<open>
  A color row with a null \<open>object_id\<close> is outside the batches that have their keys.
  SQLite takes it as in conflict with no row, so two such rows fetched from the record
  without id are both in the table.
\<close>

lemma null_key_colors_example:
  "fetch_data anonymous_api ''Coins'' 5 =
     Some (Inr ([meta_row_of ''Coins'' anonymous_record], [media_row_of anonymous_record],
                [\<lparr> color_object_id = None, color_hue = Some ''Red'', color_percentage = Some (1/2) \<rparr>,
                 \<lparr> color_object_id = None, color_hue = Some ''Red'', color_percentage = Some (1/4) \<rparr>],
                [anonymous_record])) \<and>
   artifact_colors (upsert_all (init_db None)
       [([meta_row_of ''Coins'' anonymous_record], [media_row_of anonymous_record],
         [\<lparr> color_object_id = None, color_hue = Some ''Red'', color_percentage = Some (1/2) \<rparr>,
          \<lparr> color_object_id = None, color_hue = Some ''Red'', color_percentage = Some (1/4) \<rparr>])])
     = [\<lparr> color_object_id = None, color_hue = Some ''Red'', color_percentage = Some (1/2) \<rparr>,
        \<lparr> color_object_id = None, color_hue = Some ''Red'', color_percentage = Some (1/4) \<rparr>] \<and>
   \<not> keys_unique (upsert_all (init_db None)
       [([meta_row_of ''Coins'' anonymous_record], [media_row_of anonymous_record],
         [\<lparr> color_object_id = None, color_hue = Some ''Red'', color_percentage = Some (1/2) \<rparr>,
          \<lparr> color_object_id = None, color_hue = Some ''Red'', color_percentage = Some (1/4) \<rparr>])])"
proof -
  have "artifact_colors (upsert_all (init_db None)
       [([meta_row_of ''Coins'' anonymous_record], [media_row_of anonymous_record],
         [\<lparr> color_object_id = None, color_hue = Some ''Red'', color_percentage = Some (1/2) \<rparr>,
          \<lparr> color_object_id = None, color_hue = Some ''Red'', color_percentage = Some (1/4) \<rparr>])])
     = [\<lparr> color_object_id = None, color_hue = Some ''Red'', color_percentage = Some (1/2) \<rparr>,
        \<lparr> color_object_id = None, color_hue = Some ''Red'', color_percentage = Some (1/4) \<rparr>]"
    by (simp add: store_defs anonymous_record_def example_defs)
  then show ?thesis
    by (simp add: anonymous_api_fetch keys_unique_def color_key_def)
qed

lemma distinct_replace_all:
  "distinct (map key t) \<Longrightarrow> distinct (map key (replace_all key t rs))"
  by (induction rs arbitrary: t) (simp_all add: distinct_replace_row)

lemma executemany_keyed_distinct:
  assumes run: "\<And>t. executemany stmt t rs = (if ok then Inr (replace_all key t rs) else Inl e)"
    and res: "executemany stmt t rs = Inr t'"
    and dist: "distinct (map key t)"
  shows "distinct (map key t')"
proof -
  from run [of t] res have "t' = replace_all key t rs"
    by (auto split: if_splits)
  with dist show ?thesis by (simp add: distinct_replace_all)
qed

lemma insert_frames_keys_unique:
  assumes inv: "keys_unique db" and keyed: "keys_present m me c"
  shows "keys_unique (snd (insert_frames db m me c))"
proof (cases "insert_frames db m me c")
  case (Pair out db')
  show ?thesis
  proof (cases out)
    case (Some e)
    with Pair have "db' = db" by (simp add: insert_frames_failed)
    with Pair inv show ?thesis by simp
  next
    case None
    with Pair obtain t1 t2 t3 where
      t1: "executemany replace_metadata (artifact_metadata db) m = Inr t1"
      and t2: "executemany replace_media (artifact_media db) me = Inr t2"
      and t3: "executemany replace_colors (artifact_colors db) c = Inr t3"
      and db': "db' = \<lparr> artifact_metadata = t1, artifact_media = t2, artifact_colors = t3 \<rparr>"
      by (auto simp: insert_frames_alt split: sum.splits)
    from keyed have km: "\<forall>r\<in>set m. meta_id r \<noteq> None"
      and kme: "\<forall>r\<in>set me. media_object_id r \<noteq> None"
      and kc: "\<forall>r\<in>set c. color_object_id r \<noteq> None \<and> color_hue r \<noteq> None"
      by (simp_all add: keys_present_def)
    from inv have a: "distinct (map meta_id (artifact_metadata db))"
      and b: "distinct (map media_object_id (artifact_media db))"
      and d: "distinct (map color_key (artifact_colors db))"
      by (simp_all add: keys_unique_def)
    have "distinct (map meta_id t1)"
      using executemany_metadata [OF km] t1 a by (rule executemany_keyed_distinct)
    moreover have "distinct (map media_object_id t2)"
      using executemany_media [OF kme] t2 b by (rule executemany_keyed_distinct)
    moreover have "distinct (map color_key t3)"
      using executemany_colors [OF kc] t3 d by (rule executemany_keyed_distinct)
    ultimately show ?thesis
      using Pair by (simp add: keys_unique_def db')
  qed
qed

text \<open>
  Claim C6 (key uniqueness). After every sequence of upsert batches that have their
  keys, on a new database, no two rows of artifact\_metadata share an id, no two rows
  of artifact\_media share an \<open>object_id\<close>, and no two rows of artifact\_colors
  share the pair of \<open>object_id\<close> and \<open>hue\<close>. Each upsert of such a batch keeps
  this: a row of the batch replaces the row with its key.
\<close>

theorem key_uniqueness:
  "(batches_keyed batches \<longrightarrow> keys_unique (upsert_all (init_db None) batches)) \<and>
   (keys_unique db \<longrightarrow> keys_present meta_df media_df colors_df \<longrightarrow>
      keys_unique (snd (insert_frames db meta_df media_df colors_df)))"
proof (intro conjI impI)
  assume keyed: "batches_keyed batches"
  have start: "keys_unique (init_db None)"
    by (simp add: init_db_def empty_store_def keys_unique_def)
  have step: "keys_unique (upsert_all s bs)" if "keys_unique s" and "batches_keyed bs" for s bs
    using that
  proof (induction bs arbitrary: s)
    case Nil
    then show ?case by simp
  next
    case (Cons b bs)
    obtain m me c where b: "b = (m, me, c)" by (cases b) auto
    from Cons.prems(2) b have k: "keys_present m me c" and rest: "batches_keyed bs"
      by (simp_all add: batches_keyed_def)
    from Cons.prems(1) k have "keys_unique (snd (insert_frames s m me c))"
      by (rule insert_frames_keys_unique)
    then have "keys_unique (upsert_all (snd (insert_frames s m me c)) bs)"
      using rest by (rule Cons.IH)
    with b show ?case by simp
  qed
  from start keyed show "keys_unique (upsert_all (init_db None) batches)" by (rule step)
next
  assume "keys_unique db" and "keys_present meta_df media_df colors_df"
  then show "keys_unique (snd (insert_frames db meta_df media_df colors_df))"
    by (rule insert_frames_keys_unique)
qed

text \<open>
  An instance: two batches with the same keys on a new database, where the rows of the
  second replace those of the first, and one batch on the store with rows for id 7.
\<close>

theorem key_uniqueness_witness:
  "batches_keyed
     [([meta_row_of ''Coins'' first_record], [media_row_of first_record], [red_half, red_eighth]),
      ([meta_row_of ''Prints'' second_record], [media_row_of second_record], [red_half])] \<and>
   upsert_all (init_db None)
     [([meta_row_of ''Coins'' first_record], [media_row_of first_record], [red_half, red_eighth]),
      ([meta_row_of ''Prints'' second_record], [media_row_of second_record], [red_half])]
     = \<lparr> artifact_metadata = [meta_row_of ''Prints'' second_record],
         artifact_media = [media_row_of second_record],
         artifact_colors = [red_half] \<rparr> \<and>
   keys_unique (upsert_all (init_db None)
     [([meta_row_of ''Coins'' first_record], [media_row_of first_record], [red_half, red_eighth]),
      ([meta_row_of ''Prints'' second_record], [media_row_of second_record], [red_half])]) \<and>
   keys_unique example_store \<and>
   keys_present [meta_row_of ''Coins'' first_record] [media_row_of first_record] [red_half, red_eighth] \<and>
   keys_unique (snd (insert_frames example_store [meta_row_of ''Coins'' first_record]
       [media_row_of first_record] [red_half, red_eighth]))"
proof -
  have a: "batches_keyed
     [([meta_row_of ''Coins'' first_record], [media_row_of first_record], [red_half, red_eighth]),
      ([meta_row_of ''Prints'' second_record], [media_row_of second_record], [red_half])]"
    by (simp add: batches_keyed_def keys_present_def example_defs)
  have b: "upsert_all (init_db None)
     [([meta_row_of ''Coins'' first_record], [media_row_of first_record], [red_half, red_eighth]),
      ([meta_row_of ''Prints'' second_record], [media_row_of second_record], [red_half])]
     = \<lparr> artifact_metadata = [meta_row_of ''Prints'' second_record],
         artifact_media = [media_row_of second_record],
         artifact_colors = [red_half] \<rparr>"
    by (simp add: store_defs example_defs)
  have c: "keys_unique example_store"
    by (simp add: keys_unique_def example_store_def color_key_def)
  have d: "keys_present [meta_row_of ''Coins'' first_record] [media_row_of first_record] [red_half, red_eighth]"
    by (simp add: keys_present_def example_defs)
  from key_uniqueness [of "[([meta_row_of ''Coins'' first_record], [media_row_of first_record], [red_half, red_eighth]),
      ([meta_row_of ''Prints'' second_record], [media_row_of second_record], [red_half])]"
      example_store "[meta_row_of ''Coins'' first_record]" "[media_row_of first_record]"
      "[red_half, red_eighth]"] a b c d
  show ?thesis by blast
qed

subsection \<open>Duplicate color rows\<close>

lemma executemany_snoc:
  "executemany stmt t (rs @ [r]) =
     (case executemany stmt t rs of Inl e \<Rightarrow> Inl e | Inr t' \<Rightarrow> stmt r t')"
  by (induction rs arbitrary: t) (auto split: sum.splits)

lemma executemany_colors_last:
  assumes "executemany replace_colors t rs = Inr t'"
    and "r \<in> set rs" and "key_not_null r"
  shows "filter (\<lambda>x. color_key x = color_key r) t'
       = [last (filter (\<lambda>x. color_key x = color_key r) rs)]"
  using assms(1,2)
proof (induction rs arbitrary: t' rule: rev_induct)
  case Nil
  then show ?case by simp
next
  case (snoc x rs)
  from snoc.prems(1) obtain u where u: "executemany replace_colors t rs = Inr u"
    and t': "replace_colors x u = Inr t'"
    by (auto simp: executemany_snoc split: sum.splits)
  show ?case
  proof (cases "color_key x = color_key r")
    case True
    with assms(3) have "key_not_null x"
      by (simp add: key_not_null_def color_key_def)
    with t' have "t' = replace_row color_key x u"
      by (auto simp: replace_colors_def key_not_null_def split: if_splits)
    with True show ?thesis by (simp add: replace_row_def)
  next
    case False
    with snoc.prems(2) have "r \<in> set rs" by auto
    with u have IH: "filter (\<lambda>x. color_key x = color_key r) u
        = [last (filter (\<lambda>x. color_key x = color_key r) rs)]"
      by (rule snoc.IH)
    from t' have "t' = u @ [x] \<or> t' = replace_row color_key x u"
      by (auto simp: replace_colors_def split: if_splits)
    moreover have "filter (\<lambda>y. color_key y \<noteq> color_key x \<and> color_key y = color_key r) u
        = filter (\<lambda>y. color_key y = color_key r) u"
      using False by (intro filter_cong) auto
    ultimately have "filter (\<lambda>y. color_key y = color_key r) t' = filter (\<lambda>y. color_key y = color_key r) u"
      using False by (auto simp: replace_row_def)
    with IH False show ?thesis by simp
  qed
qed

lemma insert_frames_colors:
  "insert_frames db m me c = (None, db') \<Longrightarrow>
   executemany replace_colors (artifact_colors db) c = Inr (artifact_colors db')"
  by (auto simp: insert_frames_alt split: sum.splits)

text \<open>
  Claim C10 (colors are not deduplicated, the last duplicate wins in the store). The
  color frame returned by \<open>fetch_data\<close> can hold two different rows with the same
  \<open>object_id\<close> and \<open>hue\<close>, as for \<open>twice_api\<close>. When \<open>insert_frames\<close> succeeds,
  for every row of the color frame with a present key the table holds exactly one row
  with that key, and it is the last row of the frame with that key.
\<close>

theorem colors_last_duplicate_wins:
  "fetch_data twice_api ''Coins'' 5 =
     Some (Inr ([meta_row_of ''Coins'' first_record], [media_row_of first_record],
                [red_half, red_eighth], [first_record, second_record])) \<and>
   color_key red_half = color_key red_eighth \<and> red_half \<noteq> red_eighth \<and>
   (insert_frames db meta_df media_df colors_df = (None, db') \<longrightarrow>
    r \<in> set colors_df \<longrightarrow> key_not_null r \<longrightarrow>
      filter (\<lambda>x. color_key x = color_key r) (artifact_colors db')
        = [last (filter (\<lambda>x. color_key x = color_key r) colors_df)])"
proof (intro conjI impI)
  show "fetch_data twice_api ''Coins'' 5 =
     Some (Inr ([meta_row_of ''Coins'' first_record], [media_row_of first_record],
                [red_half, red_eighth], [first_record, second_record]))"
    by (simp add: twice_api_fetch)
  show "color_key red_half = color_key red_eighth"
    by (simp add: color_key_def red_half_def red_eighth_def)
  show "red_half \<noteq> red_eighth"
    by (simp add: red_half_def red_eighth_def)
next
  assume "insert_frames db meta_df media_df colors_df = (None, db')"
  then have "executemany replace_colors (artifact_colors db) colors_df = Inr (artifact_colors db')"
    by (rule insert_frames_colors)
  moreover assume "r \<in> set colors_df" and "key_not_null r"
  ultimately show "filter (\<lambda>x. color_key x = color_key r) (artifact_colors db')
        = [last (filter (\<lambda>x. color_key x = color_key r) colors_df)]"
    by (rule executemany_colors_last)
qed

theorem colors_last_duplicate_wins_witness:
  "insert_frames example_store [] [] [red_half, red_eighth] =
     (None, example_store \<lparr> artifact_colors :=
        [\<lparr> color_object_id = Some 7, color_hue = Some ''Blue'', color_percentage = None \<rparr>, red_eighth] \<rparr>) \<and>
   red_half \<in> set [red_half, red_eighth] \<and> key_not_null red_half \<and>
   filter (\<lambda>x. color_key x = color_key red_half)
     (artifact_colors (example_store \<lparr> artifact_colors :=
        [\<lparr> color_object_id = Some 7, color_hue = Some ''Blue'', color_percentage = None \<rparr>, red_eighth] \<rparr>))
     = [last (filter (\<lambda>x. color_key x = color_key red_half) [red_half, red_eighth])] \<and>
   last (filter (\<lambda>x. color_key x = color_key red_half) [red_half, red_eighth]) = red_eighth"
proof -
  have a: "insert_frames example_store [] [] [red_half, red_eighth] =
     (None, example_store \<lparr> artifact_colors :=
        [\<lparr> color_object_id = Some 7, color_hue = Some ''Blue'', color_percentage = None \<rparr>, red_eighth] \<rparr>)"
    by (simp add: store_defs example_store_def example_defs)
  have b: "red_half \<in> set [red_half, red_eighth]" by simp
  have c: "key_not_null red_half" by (simp add: key_not_null_def red_half_def)
  have d: "last (filter (\<lambda>x. color_key x = color_key red_half) [red_half, red_eighth]) = red_eighth"
    by (simp add: color_key_def red_half_def red_eighth_def)
  have "insert_frames example_store [] [] [red_half, red_eighth] =
     (None, example_store \<lparr> artifact_colors :=
        [\<lparr> color_object_id = Some 7, color_hue = Some ''Blue'', color_percentage = None \<rparr>, red_eighth] \<rparr>) \<longrightarrow>
    red_half \<in> set [red_half, red_eighth] \<longrightarrow> key_not_null red_half \<longrightarrow>
    filter (\<lambda>x. color_key x = color_key red_half)
     (artifact_colors (example_store \<lparr> artifact_colors :=
        [\<lparr> color_object_id = Some 7, color_hue = Some ''Blue'', color_percentage = None \<rparr>, red_eighth] \<rparr>))
     = [last (filter (\<lambda>x. color_key x = color_key red_half) [red_half, red_eighth])]"
    using colors_last_duplicate_wins [of example_store "[]" "[]" "[red_half, red_eighth]"
      "example_store \<lparr> artifact_colors :=
        [\<lparr> color_object_id = Some 7, color_hue = Some ''Blue'', color_percentage = None \<rparr>, red_eighth] \<rparr>"
      red_half]
    by blast
  with a b c d show ?thesis by blast
qed

subsection \<open>The fetch loop\<close>

lemma length_nonempty: "xs \<noteq> [] \<Longrightarrow> Suc 0 \<le> length xs"
  by (cases xs) simp_all

lemma fetch_body_Continue:
  assumes "fetch_body remote c st = Continue st'"
  shows "collected st + 1 \<le> collected st'"
  using assms
  by (auto simp: fetch_body_def Let_def length_nonempty
      split: response.splits if_splits option.splits)

lemma fetch_body_rows:
  assumes "fetch_body remote c st = Continue st' \<or> fetch_body remote c st = Break st'"
    and "rows_of_records c st"
  shows "rows_of_records c st'"
  using assms
  by (auto simp: fetch_body_def Let_def rows_of_records_def
      split: response.splits if_splits option.splits)

lemma fetch_loop_terminates: "\<exists>r. fetch_loop remote c limit st = Some r"
proof (induction "nat (limit - collected st)" arbitrary: st rule: less_induct)
  case less
  show ?case
  proof (cases "collected st < limit")
    case False
    then show ?thesis by (subst fetch_loop.simps) simp
  next
    case True
    show ?thesis
    proof (cases "fetch_body remote c st")
      case (Continue st')
      then have "collected st + 1 \<le> collected st'" by (rule fetch_body_Continue)
      with True have "nat (limit - collected st') < nat (limit - collected st)" by simp
      then obtain r where "fetch_loop remote c limit st' = Some r"
        using less by blast
      with True Continue show ?thesis by (subst fetch_loop.simps) simp
    next
      case (Raise e)
      with True show ?thesis by (subst fetch_loop.simps) simp
    next
      case (Break st')
      with True show ?thesis by (subst fetch_loop.simps) simp
    qed
  qed
qed

text \<open>
  Claim C9 (the fetch terminates). For every remote API, classification and limit
  \<open>fetch_data\<close> returns, with frames or with an error; and every run of the loop body
  that reaches its end has raised the count of collected records by at least one.
\<close>

theorem fetch_terminates:
  "(\<exists>r. fetch_data remote c limit = Some r) \<and>
   (\<forall>st st'. fetch_body remote c st = Continue st' \<longrightarrow> collected st + 1 \<le> collected st')"
proof
  obtain r where "fetch_loop remote c limit fetch_init = Some r"
    using fetch_loop_terminates by blast
  then show "\<exists>r. fetch_data remote c limit = Some r"
    by (cases r) (simp_all add: fetch_data_def)
  show "\<forall>st st'. fetch_body remote c st = Continue st' \<longrightarrow> collected st + 1 \<le> collected st'"
    by (blast intro: fetch_body_Continue)
qed

theorem fetch_terminates_witness:
  "fetch_data failing_api ''Coins'' 5 = Some (Inl TransportError) \<and>
   fetch_body failing_api ''Coins'' fetch_init = Continue after_first_page \<and>
   collected fetch_init + 1 \<le> collected after_first_page"
proof -
  have a: "fetch_body failing_api ''Coins'' fetch_init = Continue after_first_page"
    by (simp add: fetch_body_def failing_api_def fetch_init_def after_first_page_def)
  have b: "fetch_data failing_api ''Coins'' 5 = Some (Inl TransportError)"
    by (simp add: fetch_defs failing_api_def)
  from fetch_terminates [of failing_api "''Coins''" 5] a b show ?thesis by blast
qed

lemma fetch_loop_invariant:
  assumes step: "\<And>s s'. P s \<Longrightarrow> collected s < limit \<Longrightarrow>
      fetch_body remote c s = Continue s' \<or> fetch_body remote c s = Break s' \<Longrightarrow> P s'"
  shows "fetch_loop remote c limit st = Some (Inr st') \<Longrightarrow> P st \<Longrightarrow> P st'"
proof (induction "nat (limit - collected st)" arbitrary: st rule: less_induct)
  case less
  show ?case
  proof (cases "collected st < limit")
    case False
    with less.prems show ?thesis by (subst (asm) fetch_loop.simps) simp
  next
    case True
    show ?thesis
    proof (cases "fetch_body remote c st")
      case (Continue s')
      then have "collected st + 1 \<le> collected s'" by (rule fetch_body_Continue)
      with True have m: "nat (limit - collected s') < nat (limit - collected st)" by simp
      from less.prems(1) True Continue have "fetch_loop remote c limit s' = Some (Inr st')"
        by (subst (asm) fetch_loop.simps) simp
      moreover from less.prems(2) True Continue have "P s'" by (blast intro: step)
      ultimately show ?thesis using m less.hyps by blast
    next
      case (Raise e)
      with True less.prems(1) show ?thesis by (subst (asm) fetch_loop.simps) simp
    next
      case (Break s')
      with True less.prems(1) have "st' = s'" by (subst (asm) fetch_loop.simps) simp
      with less.prems(2) True Break show ?thesis by (blast intro: step)
    qed
  qed
qed

lemma fetch_loop_rows:
  assumes "fetch_loop remote c limit fetch_init = Some (Inr st)"
  shows "rows_of_records c st"
proof -
  have "rows_of_records c fetch_init"
    by (simp add: rows_of_records_def fetch_init_def)
  with assms show ?thesis
    by (rule fetch_loop_invariant [rotated]) (rule fetch_body_rows)
qed

lemma fetch_data_frames:
  assumes "fetch_data remote c limit = Some (Inr (meta_df, media_df, colors_df, raw))"
  shows "meta_df = drop_duplicates meta_id (map (meta_row_of c) raw)"
    and "media_df = drop_duplicates media_object_id (map media_row_of raw)"
    and "colors_df = filter (\<lambda>r. color_hue r \<noteq> None) (concat (map color_rows_of raw))"
proof -
  from assms obtain st where loop: "fetch_loop remote c limit fetch_init = Some (Inr st)"
    and fin: "fetch_finish st = Inr (meta_df, media_df, colors_df, raw)"
    by (auto simp: fetch_data_def split: option.splits sum.splits)
  from loop have rows: "rows_of_records c st" by (rule fetch_loop_rows)
  from fin have raw: "raw = raw_records st"
    and "meta_df = drop_duplicates meta_id (meta_rows st)"
    and "media_df = drop_duplicates media_object_id (media_rows st)"
    and "colors_df = filter (\<lambda>r. color_hue r \<noteq> None) (color_rows st)"
    by (auto simp: fetch_finish_def dropna_hue_def Let_def split: if_splits)
  with rows show "meta_df = drop_duplicates meta_id (map (meta_row_of c) raw)"
    and "media_df = drop_duplicates media_object_id (map media_row_of raw)"
    and "colors_df = filter (\<lambda>r. color_hue r \<noteq> None) (concat (map color_rows_of raw))"
    by (simp_all add: rows_of_records_def)
qed

subsection \<open>The limit of a fetch\<close>

text \<open>
  Claim C2 (fetch limit bound: the raw records returned are at most \<open>limit\<close>). The
  code does not keep the bound that its docstring states ("Fetch up to limit
  records"). The loop tests \<open>collected < limit\<close> only before a request and then adds
  the whole page (lines 100 and 131): with limit 1 and a first page of two records,
  \<open>fetch_data\<close> returns two raw records.
\<close>

theorem fetch_exceeds_limit:
  "fetch_data twice_api ''Coins'' 1 =
     Some (Inr ([meta_row_of ''Coins'' first_record], [media_row_of first_record],
                [red_half, red_eighth], [first_record, second_record])) \<and>
   \<not> int (length [first_record, second_record]) \<le> 1"
  by (simp add: twice_api_fetch)

text \<open>
  The color frame has one row for each color entry with a hue, so it can hold more
  rows than \<open>limit\<close> also when the raw records do not: limit 1, one record, two
  color rows.
\<close>

lemma color_rows_exceed_limit_example:
  "fetch_data palette_api ''Coins'' 1 =
     Some (Inr ([meta_row_of ''Coins'' (example_record (Some 3) ''vase''
                      [example_entry (Some ''Blue'') (1/2), example_entry (Some ''Green'') (1/2)])],
                [media_row_of (example_record (Some 3) ''vase''
                      [example_entry (Some ''Blue'') (1/2), example_entry (Some ''Green'') (1/2)])],
                [\<lparr> color_object_id = Some 3, color_hue = Some ''Blue'', color_percentage = Some (1/2) \<rparr>,
                 \<lparr> color_object_id = Some 3, color_hue = Some ''Green'', color_percentage = Some (1/2) \<rparr>],
                [example_record (Some 3) ''vase''
                      [example_entry (Some ''Blue'') (1/2), example_entry (Some ''Green'') (1/2)]])) \<and>
   \<not> int (length
         [\<lparr> color_object_id = Some 3, color_hue = Some ''Blue'', color_percentage = Some (1/2) \<rparr>,
          \<lparr> color_object_id = Some 3, color_hue = Some ''Green'', color_percentage = Some (1/2) \<rparr>]) \<le> 1"
  by (simp add: palette_api_fetch)

subsection \<open>Duplicates within a fetch\<close>

lemma drop_duplicates_from_filter:
  "filter (\<lambda>r. key r = k) (drop_duplicates_from key seen rows) =
     (if k \<in> set seen then []
      else case find (\<lambda>r. key r = k) rows of None \<Rightarrow> [] | Some r \<Rightarrow> [r])"
proof (induction rows arbitrary: seen)
  case Nil
  then show ?case by simp
next
  case (Cons r rows)
  then show ?case by (cases "key r = k") auto
qed

lemma drop_duplicates_filter:
  "filter (\<lambda>r. key r = k) (drop_duplicates key rows) =
     (case find (\<lambda>r. key r = k) rows of None \<Rightarrow> [] | Some r \<Rightarrow> [r])"
  by (simp add: drop_duplicates_def drop_duplicates_from_filter)

lemma find_map_key:
  assumes "\<And>x. key (f x) = key' x"
  shows "find (\<lambda>r. key r = k) (map f xs) = map_option f (find (\<lambda>x. key' x = k) xs)"
  by (induction xs) (simp_all add: assms)

lemma find_member: "x \<in> set xs \<Longrightarrow> \<exists>y. find (\<lambda>y. key y = key x) xs = Some y"
  by (induction xs) auto

text \<open>
  Claim C5 (duplicates within a fetch, first occurrence wins). When \<open>fetch_data\<close>
  returns frames, then for every raw record the metadata frame holds exactly one row
  with the id of that record, built from the first raw record with that id, and the
  media frame holds exactly one row with that \<open>object_id\<close>, built from the same record.
\<close>

theorem dedup_first_wins:
  assumes "fetch_data remote c limit = Some (Inr (meta_df, media_df, colors_df, raw))"
    and "obj \<in> set raw"
  shows "\<exists>first. find (\<lambda>x. raw_id x = raw_id obj) raw = Some first \<and>
           filter (\<lambda>r. meta_id r = raw_id obj) meta_df = [meta_row_of c first] \<and>
           filter (\<lambda>r. media_object_id r = raw_id obj) media_df = [media_row_of first]"
proof -
  from assms(2) obtain first where first: "find (\<lambda>x. raw_id x = raw_id obj) raw = Some first"
    using find_member [of obj raw raw_id] by blast
  have "find (\<lambda>r. meta_id r = raw_id obj) (map (meta_row_of c) raw) = Some (meta_row_of c first)"
    using find_map_key [of meta_id "meta_row_of c" raw_id "raw_id obj" raw] first
    by (simp add: meta_row_of_def)
  then have "filter (\<lambda>r. meta_id r = raw_id obj) meta_df = [meta_row_of c first]"
    by (simp add: fetch_data_frames(1) [OF assms(1)] drop_duplicates_filter)
  moreover
  have "find (\<lambda>r. media_object_id r = raw_id obj) (map media_row_of raw) = Some (media_row_of first)"
    using find_map_key [of media_object_id media_row_of raw_id "raw_id obj" raw] first
    by (simp add: media_row_of_def)
  then have "filter (\<lambda>r. media_object_id r = raw_id obj) media_df = [media_row_of first]"
    by (simp add: fetch_data_frames(2) [OF assms(1)] drop_duplicates_filter)
  ultimately show ?thesis using first by blast
qed

theorem dedup_first_wins_witness:
  "fetch_data twice_api ''Coins'' 5 =
     Some (Inr ([meta_row_of ''Coins'' first_record], [media_row_of first_record],
                [red_half, red_eighth], [first_record, second_record])) \<and>
   second_record \<in> set [first_record, second_record] \<and>
   find (\<lambda>x. raw_id x = raw_id second_record) [first_record, second_record] = Some first_record \<and>
   filter (\<lambda>r. meta_id r = raw_id second_record) [meta_row_of ''Coins'' first_record]
     = [meta_row_of ''Coins'' first_record] \<and>
   filter (\<lambda>r. media_object_id r = raw_id second_record) [media_row_of first_record]
     = [media_row_of first_record]"
proof -
  have f: "fetch_data twice_api ''Coins'' 5 =
     Some (Inr ([meta_row_of ''Coins'' first_record], [media_row_of first_record],
                [red_half, red_eighth], [first_record, second_record]))"
    by (simp add: twice_api_fetch)
  have m: "second_record \<in> set [first_record, second_record]" by simp
  have "find (\<lambda>x. raw_id x = raw_id second_record) [first_record, second_record] = Some first_record"
    by (simp add: example_defs)
  with f m dedup_first_wins [OF f m] show ?thesis by simp
qed

subsection \<open>Transport failures\<close>

lemma fetch_reaches_loop:
  assumes "fetch_reaches remote c limit st"
  shows "fetch_loop remote c limit st = fetch_loop remote c limit fetch_init"
  using assms
proof (induction rule: fetch_reaches.induct)
  case reach_init
  show ?case ..
next
  case (reach_step st st')
  have "fetch_loop remote c limit st = fetch_loop remote c limit st'"
    using reach_step.hyps(2,3) by (subst fetch_loop.simps) simp
  with reach_step.IH show ?case by simp
qed

lemma fetch_data_transport:
  assumes "fetch_reaches remote c limit st" and "collected st < limit"
    and "remote c (page st) = HttpFailed"
  shows "fetch_data remote c limit = Some (Inl TransportError)"
proof -
  have "fetch_body remote c st = Raise TransportError"
    by (simp add: fetch_body_def assms(3))
  with assms(2) have "fetch_loop remote c limit st = Some (Inl TransportError)"
    by (subst fetch_loop.simps) simp
  then have "fetch_loop remote c limit fetch_init = Some (Inl TransportError)"
    by (simp add: fetch_reaches_loop [OF assms(1)])
  then show ?thesis
    by (simp add: fetch_data_def)
qed

lemma collect_data_database:
  "collect_data remote c w = Some (w', out) \<Longrightarrow> database w' = database w"
  by (auto simp: collect_data_def split: if_splits option.splits sum.splits)

lemma failing_api_reaches:
  "fetch_reaches failing_api ''Coins'' DEFAULT_FETCH_LIMIT after_first_page"
proof (rule reach_step [OF reach_init])
  show "collected fetch_init < DEFAULT_FETCH_LIMIT"
    by (simp add: fetch_init_def DEFAULT_FETCH_LIMIT_def)
  show "fetch_body failing_api ''Coins'' fetch_init = Continue after_first_page"
    by (simp add: fetch_body_def failing_api_def fetch_init_def after_first_page_def)
qed

text \<open>
  Claim C8 (all or nothing on a transport failure). When the loop of a fetch is at a
  state where it requests a page and the request fails, \<open>fetch_data\<close> returns the one
  error \<open>TransportError\<close> and no frames, whatever pages it has collected. The Collect
  Data handler, which fetches with the default limit, then leaves the session and the
  database as they were; and no call of the handler changes the database.
\<close>

theorem transport_failure_aborts:
  assumes "fetch_reaches remote c limit st" and "collected st < limit"
    and "remote c (page st) = HttpFailed"
  shows "fetch_data remote c limit = Some (Inl TransportError) \<and>
         (limit = DEFAULT_FETCH_LIMIT \<longrightarrow>
            collect_data remote c w =
              Some (w, if c = [] then EnterClassification
                       else if lower c \<in> ss_inserted_classifications (session w) then AlreadyInserted
                       else CollectFailed TransportError)) \<and>
         (\<forall>w' out. collect_data remote c w = Some (w', out) \<longrightarrow> database w' = database w)"
proof -
  have f: "fetch_data remote c limit = Some (Inl TransportError)"
    using assms by (rule fetch_data_transport)
  then have "limit = DEFAULT_FETCH_LIMIT \<longrightarrow>
      collect_data remote c w =
        Some (w, if c = [] then EnterClassification
                 else if lower c \<in> ss_inserted_classifications (session w) then AlreadyInserted
                 else CollectFailed TransportError)"
    by (auto simp: collect_data_def)
  moreover have "\<forall>w' out. collect_data remote c w = Some (w', out) \<longrightarrow> database w' = database w"
    by (blast dest: collect_data_database)
  ultimately show ?thesis using f by blast
qed

theorem transport_failure_aborts_witness:
  "fetch_reaches failing_api ''Coins'' DEFAULT_FETCH_LIMIT after_first_page \<and>
   collected after_first_page < DEFAULT_FETCH_LIMIT \<and>
   failing_api ''Coins'' (page after_first_page) = HttpFailed \<and>
   fetch_data failing_api ''Coins'' DEFAULT_FETCH_LIMIT = Some (Inl TransportError) \<and>
   collect_data failing_api ''Coins'' world_start = Some (world_start, CollectFailed TransportError) \<and>
   database world_start = empty_store"
proof -
  have b: "collected after_first_page < DEFAULT_FETCH_LIMIT"
    by (simp add: after_first_page_def DEFAULT_FETCH_LIMIT_def)
  have c: "failing_api ''Coins'' (page after_first_page) = HttpFailed"
    by (simp add: after_first_page_def failing_api_def)
  have d: "lower ''Coins'' \<notin> ss_inserted_classifications (session world_start)"
    by (simp add: world_start_def session_init_def)
  have e: "database world_start = empty_store"
    by (simp add: world_start_def init_db_def)
  from transport_failure_aborts [OF failing_api_reaches b c, of world_start] failing_api_reaches b c d e
  show ?thesis by simp
qed

subsection \<open>Rows without hue\<close>

lemma executemany_colors_subset:
  "executemany replace_colors t rs = Inr t' \<Longrightarrow> set t' \<subseteq> set t \<union> set rs"
proof (induction rs arbitrary: t)
  case Nil
  then show ?case by simp
next
  case (Cons r rs)
  then obtain u where u: "replace_colors r t = Inr u" and t': "executemany replace_colors u rs = Inr t'"
    by (auto split: sum.splits)
  from u have "set u \<subseteq> set t \<union> {r}"
    by (auto simp: replace_colors_def replace_row_def split: if_splits)
  with Cons.IH [OF t'] show ?case by auto
qed

lemma insert_frames_hues:
  assumes "hues_present (artifact_colors db)" and "hues_present c"
  shows "hues_present (artifact_colors (snd (insert_frames db m me c)))"
proof (cases "insert_frames db m me c")
  case (Pair out db')
  show ?thesis
  proof (cases out)
    case (Some e)
    with Pair have "db' = db" by (simp add: insert_frames_failed)
    with Pair assms show ?thesis by simp
  next
    case None
    with Pair obtain t3 where "executemany replace_colors (artifact_colors db) c = Inr t3"
      and "artifact_colors db' = t3"
      by (auto simp: insert_frames_alt split: sum.splits)
    with executemany_colors_subset [of "artifact_colors db" c t3] assms Pair
    show ?thesis by (auto simp: hues_present_def)
  qed
qed

lemma fetch_data_hues:
  assumes "fetch_data remote c limit = Some (Inr (meta_df, media_df, colors_df, raw))"
  shows "hues_present colors_df"
  by (simp add: fetch_data_frames(3) [OF assms] hues_present_def)

lemma collect_data_hue_inv:
  assumes "collect_data remote c w = Some (w', out)" and "hue_inv w"
  shows "hue_inv w'"
proof (cases "c = [] \<or> lower c \<in> ss_inserted_classifications (session w)")
  case True
  with assms show ?thesis by (auto simp: collect_data_def split: if_splits)
next
  case False
  show ?thesis
  proof (cases "fetch_data remote c DEFAULT_FETCH_LIMIT")
    case None
    with False assms(1) show ?thesis by (simp add: collect_data_def)
  next
    case (Some r)
    show ?thesis
    proof (cases r)
      case (Inl e)
      with Some False assms show ?thesis by (auto simp: collect_data_def)
    next
      case (Inr fr)
      obtain meta_df media_df colors_df raw where fr: "fr = (meta_df, media_df, colors_df, raw)"
        by (cases fr) auto
      from Some Inr fr have "hues_present colors_df" by (auto intro: fetch_data_hues)
      with Some Inr fr False assms show ?thesis
        by (auto simp: collect_data_def hue_inv_def)
    qed
  qed
qed

lemma insert_button_hue_inv:
  assumes "insert_button c w = (w', out)" and "hue_inv w"
  shows "hue_inv w'"
proof -
  let ?ss = "session w"
  let ?r = "insert_frames (database w) (ss_meta_df ?ss) (ss_media_df ?ss) (ss_colors_df ?ss)"
  from assms(2) have db: "hues_present (artifact_colors (snd ?r))"
    by (simp add: hue_inv_def insert_frames_hues)
  from assms(1) have "w' = w \<or> (database w' = snd ?r \<and> ss_colors_df (session w') = ss_colors_df ?ss)"
    by (auto simp: insert_button_def Let_def split: if_splits prod.splits option.splits)
  with db assms(2) show ?thesis by (auto simp: hue_inv_def)
qed

lemma handle_hue_inv:
  assumes "handle remote ev w = Some (w', out)" and "hue_inv w"
  shows "hue_inv w'"
proof (cases ev)
  case (ClickCollectData c)
  with assms show ?thesis by (auto dest: collect_data_hue_inv)
next
  case (ClickInsert c)
  with assms insert_button_hue_inv [of c w w' out] show ?thesis by auto
next
  case ClickCollectedData
  with assms show ?thesis by (auto simp: show_view_def hue_inv_def)
next
  case ClickMigrateToSQL
  with assms show ?thesis by (auto simp: show_view_def hue_inv_def)
next
  case ClickSQLQueries
  with assms show ?thesis by (auto simp: show_view_def hue_inv_def)
qed

lemma run_hue_inv: "run remote evs w = Some w' \<Longrightarrow> hue_inv w \<Longrightarrow> hue_inv w'"
proof (induction evs arbitrary: w)
  case Nil
  then show ?case by simp
next
  case (Cons ev evs)
  then obtain w1 out where h: "handle remote ev w = Some (w1, out)"
    and r: "run remote evs w1 = Some w'"
    by (auto split: option.splits)
  from h Cons.prems(2) have "hue_inv w1" by (rule handle_hue_inv)
  with r show ?case by (rule Cons.IH)
qed

lemma world_start_hue_inv: "hue_inv world_start"
  by (simp add: hue_inv_def world_start_def session_init_def init_db_def empty_store_def hues_present_def)

text \<open>
  Claim C4 (no row without hue). When \<open>fetch_data\<close> returns frames, the color frame
  is the list of the color entries of the raw records that have a hue, so it has no row
  for an entry without hue. And after any sequence of clicks from the start of the
  application, no row of artifact\_colors has a null hue.
\<close>

theorem null_hue_exclusion:
  "(fetch_data remote c limit = Some (Inr (meta_df, media_df, colors_df, raw)) \<longrightarrow>
      colors_df = filter (\<lambda>r. color_hue r \<noteq> None) (concat (map color_rows_of raw)) \<and>
      hues_present colors_df) \<and>
   (run remote evs world_start = Some w \<longrightarrow> hues_present (artifact_colors (database w)))"
proof (intro conjI impI)
  assume f: "fetch_data remote c limit = Some (Inr (meta_df, media_df, colors_df, raw))"
  then show "colors_df = filter (\<lambda>r. color_hue r \<noteq> None) (concat (map color_rows_of raw))"
    by (rule fetch_data_frames(3))
  from f show "hues_present colors_df" by (rule fetch_data_hues)
next
  assume "run remote evs world_start = Some w"
  then have "hue_inv w" using world_start_hue_inv by (rule run_hue_inv)
  then show "hues_present (artifact_colors (database w))" by (simp add: hue_inv_def)
qed

theorem null_hue_exclusion_witness:
  "fetch_data twice_api ''Coins'' 5 =
     Some (Inr ([meta_row_of ''Coins'' first_record], [media_row_of first_record],
                [red_half, red_eighth], [first_record, second_record])) \<and>
   [red_half, red_eighth] =
     filter (\<lambda>r. color_hue r \<noteq> None) (concat (map color_rows_of [first_record, second_record])) \<and>
   hues_present [red_half, red_eighth] \<and>
   (\<exists>w. run twice_api [ClickCollectData ''Coins'', ClickMigrateToSQL, ClickInsert ''Coins'']
           world_start = Some w \<and>
        artifact_colors (database w) = [red_eighth] \<and>
        hues_present (artifact_colors (database w)))"
proof -
  have f: "fetch_data twice_api ''Coins'' 5 =
     Some (Inr ([meta_row_of ''Coins'' first_record], [media_row_of first_record],
                [red_half, red_eighth], [first_record, second_record]))"
    by (simp add: twice_api_fetch)
  obtain w where r: "run twice_api [ClickCollectData ''Coins'', ClickMigrateToSQL, ClickInsert ''Coins'']
           world_start = Some w" and c: "artifact_colors (database w) = [red_eighth]"
    by (simp add: collect_data_def twice_api_fetch DEFAULT_FETCH_LIMIT_def world_start_def
        session_init_def show_view_def insert_button_def store_defs example_defs
        lower_def lower_char_def)
  from null_hue_exclusion [of twice_api "''Coins''" 5 "[meta_row_of ''Coins'' first_record]"
      "[media_row_of first_record]" "[red_half, red_eighth]" "[first_record, second_record]"
      "[ClickCollectData ''Coins'', ClickMigrateToSQL, ClickInsert ''Coins'']" w] f r c
  show ?thesis by blast
qed

subsection \<open>The session tracker\<close>

lemma collect_data_tracker:
  "collect_data remote c w = Some (w', out) \<Longrightarrow> tracker w' = tracker w"
  by (auto simp: collect_data_def tracker_def split: if_splits option.splits sum.splits)

lemma insert_button_tracker:
  "insert_button c w = (w', out) \<Longrightarrow> tracker w \<subseteq> tracker w'"
  by (auto simp: insert_button_def tracker_def Let_def split: if_splits prod.splits option.splits)

lemma handle_tracker:
  "handle remote ev w = Some (w', out) \<Longrightarrow> tracker w \<subseteq> tracker w'"
proof (cases ev)
  case (ClickCollectData c)
  assume "handle remote ev w = Some (w', out)"
  with ClickCollectData show ?thesis by (auto dest: collect_data_tracker)
next
  case (ClickInsert c)
  assume "handle remote ev w = Some (w', out)"
  with ClickInsert insert_button_tracker [of c w w' out] show ?thesis by auto
qed (auto simp: show_view_def tracker_def)

lemma run_tracker: "run remote evs w = Some w' \<Longrightarrow> tracker w \<subseteq> tracker w'"
proof (induction evs arbitrary: w)
  case Nil
  then show ?case by simp
next
  case (Cons ev evs)
  then obtain w1 out where h: "handle remote ev w = Some (w1, out)"
    and r: "run remote evs w1 = Some w'"
    by (auto split: option.splits)
  from h have "tracker w \<subseteq> tracker w1" by (rule handle_tracker)
  moreover from r have "tracker w1 \<subseteq> tracker w'" by (rule Cons.IH)
  ultimately show ?case by blast
qed

lemma insert_button_marks:
  "insert_button c w = (w', Inserted) \<Longrightarrow> lower c \<in> tracker w'"
  by (auto simp: insert_button_def tracker_def Let_def split: if_splits prod.splits option.splits)

lemma insert_button_rejects:
  assumes "lower c \<in> tracker w"
  shows "insert_button c w =
     (w, if ss_migrate_click (session w) \<and> ss_collected (session w)
         then AlreadyExists else NoInsertButton)"
  using assms by (simp add: insert_button_def tracker_def Let_def)

text \<open>
  Claim C7 (tracker gating, case-insensitive). After the Insert handler has inserted
  with the classification \<open>c\<close>, and after any further clicks, an Insert click with a
  classification \<open>c'\<close> equal to \<open>c\<close> up to letter case is rejected with the error of
  line 348 (when the button is on the page; otherwise there is no button to click). In
  both cases the application is unchanged: \<open>insert_frames\<close> is not called.
\<close>

theorem tracker_gating:
  assumes "insert_button c w0 = (w1, Inserted)"
    and "run remote evs w1 = Some w2"
    and "lower c' = lower c"
  shows "insert_button c' w2 =
     (w2, if ss_migrate_click (session w2) \<and> ss_collected (session w2)
          then AlreadyExists else NoInsertButton)"
proof -
  from assms(1) have "lower c \<in> tracker w1" by (rule insert_button_marks)
  with run_tracker [OF assms(2)] have "lower c' \<in> tracker w2"
    using assms(3) by auto
  then show ?thesis by (rule insert_button_rejects)
qed

theorem tracker_gating_witness:
  "insert_button ''Paintings'' example_world
     = (fst (insert_button ''Paintings'' example_world), Inserted) \<and>
   run twice_api [ClickSQLQueries, ClickMigrateToSQL] (fst (insert_button ''Paintings'' example_world))
     = Some (show_view False True False (show_view False False True
               (fst (insert_button ''Paintings'' example_world)))) \<and>
   lower ''pAINTINGS'' = lower ''Paintings'' \<and>
   insert_button ''pAINTINGS'' (show_view False True False (show_view False False True
               (fst (insert_button ''Paintings'' example_world))))
     = (show_view False True False (show_view False False True
               (fst (insert_button ''Paintings'' example_world))), AlreadyExists)"
proof -
  have a: "insert_button ''Paintings'' example_world
     = (fst (insert_button ''Paintings'' example_world), Inserted)"
    by (simp add: insert_button_def example_world_def session_init_def store_defs example_defs
        lower_def lower_char_def)
  have b: "run twice_api [ClickSQLQueries, ClickMigrateToSQL] (fst (insert_button ''Paintings'' example_world))
     = Some (show_view False True False (show_view False False True
               (fst (insert_button ''Paintings'' example_world))))"
    by simp
  have c: "lower ''pAINTINGS'' = lower ''Paintings''"
    by (simp add: lower_def lower_char_def)
  have d: "ss_migrate_click (session (show_view False True False (show_view False False True
               (fst (insert_button ''Paintings'' example_world))))) \<and>
           ss_collected (session (show_view False True False (show_view False False True
               (fst (insert_button ''Paintings'' example_world)))))"
    by (simp add: insert_button_def example_world_def session_init_def store_defs example_defs
        lower_def lower_char_def show_view_def)
  from tracker_gating [OF a b c] d a b c show ?thesis by simp
qed

end
